theory Spec2Isabelle
  imports Complex_Main
begin

section \<open>The priority queue\<close>

text \<open>
  Modelled from the spec: the class \<open>PriorityQueue\<close> of \<open>utils/priorityQueue.ts\<close>. The hub
  imports it and calls \<open>enqueue\<close>, \<open>dequeue\<close> and \<open>isEmpty\<close> on it, but its source is not
  among the files of the repository at hand. The definitions below follow sections 3 and
  4.1 of the specification: an entry wraps a payload with an integer priority and a
  sequence number; \<open>enqueue\<close> hands out the next sequence number; \<open>dequeue\<close> gives the
  entry of lowest priority value and, among equal priorities, of lowest sequence number;
  on an empty queue it gives an empty result; nothing is dropped and there is no capacity
  bound.
\<close>

record 'a QueueEntry =
  q_item :: 'a
  q_priority :: int
  q_sequence :: nat

record 'a PriorityQueue =
  entries :: "'a QueueEntry list"
  nextSequence :: nat

definition emptyQueue :: "'a PriorityQueue" where
  "emptyQueue = \<lparr>entries = [], nextSequence = 0\<rparr>"

definition enqueue :: "'a PriorityQueue \<Rightarrow> 'a \<Rightarrow> int \<Rightarrow> 'a PriorityQueue" where
  "enqueue q x p =
     q\<lparr>entries := entries q @ [\<lparr>q_item = x, q_priority = p, q_sequence = nextSequence q\<rparr>],
       nextSequence := Suc (nextSequence q)\<rparr>"

text \<open>\<open>goes_before a b\<close>: entry \<open>a\<close> is served before entry \<open>b\<close>.\<close>

definition goes_before :: "'a QueueEntry \<Rightarrow> 'a QueueEntry \<Rightarrow> bool" where
  "goes_before a b \<longleftrightarrow>
     q_priority a < q_priority b \<or> (q_priority a = q_priority b \<and> q_sequence a < q_sequence b)"

text \<open>A scan of the stored entries that keeps the best one seen so far.\<close>

fun front_entry :: "'a QueueEntry \<Rightarrow> 'a QueueEntry list \<Rightarrow> 'a QueueEntry" where
  "front_entry best [] = best"
| "front_entry best (e # es) = front_entry (if goes_before e best then e else best) es"

definition dequeue :: "'a PriorityQueue \<Rightarrow> 'a option \<times> 'a PriorityQueue" where
  "dequeue q =
     (case entries q of
        [] \<Rightarrow> (None, q)
      | e # es \<Rightarrow>
          (let m = front_entry e es
           in (Some (q_item m),
               q\<lparr>entries := filter (\<lambda>x. q_sequence x \<noteq> q_sequence m) (entries q)\<rparr>)))"

definition isEmpty :: "'a PriorityQueue \<Rightarrow> bool" where
  "isEmpty q \<longleftrightarrow> entries q = []"

definition size_queue :: "'a PriorityQueue \<Rightarrow> nat" where
  "size_queue q = length (entries q)"

text \<open>An interleaving of calls on one queue instance, and the results of its dequeues.\<close>

datatype 'a queue_call = is_Enqueue: Enqueue 'a int | Dequeue

fun run_calls :: "'a PriorityQueue \<Rightarrow> 'a queue_call list \<Rightarrow> 'a option list \<times> 'a PriorityQueue" where
  "run_calls q [] = ([], q)"
| "run_calls q (Enqueue x p # cs) = run_calls (enqueue q x p) cs"
| "run_calls q (Dequeue # cs) =
     (let (r, q') = dequeue q; (rs, q'') = run_calls q' cs in (r # rs, q''))"

text \<open>The stored entries carry increasing sequence numbers below the next one to hand out.\<close>

definition queue_inv :: "'a PriorityQueue \<Rightarrow> bool" where
  "queue_inv q \<longleftrightarrow>
     sorted_wrt (<) (map q_sequence (entries q)) \<and>
     list_all (\<lambda>e. q_sequence e < nextSequence q) (entries q)"

section \<open>Values, errors and effects\<close>

text \<open>
  The program reads values that \<open>JSON.parse\<close> built from a model's reply, so their shape is
  not fixed by the TypeScript types. \<open>jsval\<close> holds such a value; \<open>JObj\<close> lists the own
  properties of an object, each key once. \<open>JInherited k\<close> stands for the member \<open>k\<close> that
  every object literal inherits from \<open>Object.prototype\<close> (a function or an object, always
  truthy); it arises when a lookup table is indexed with a key such as \<open>constructor\<close>.
\<close>

datatype jsval =
    JUndefined
  | JNull
  | JBool bool
  | JNum rat
  | JStr string
  | JArr "jsval list"
  | JObj "(string \<times> jsval) list"
  | JInherited string

text \<open>What \<open>if (v)\<close>, \<open>!v\<close> and \<open>v || d\<close> test.\<close>

fun truthy :: "jsval \<Rightarrow> bool" where
  "truthy JUndefined = False"
| "truthy JNull = False"
| "truthy (JBool b) = b"
| "truthy (JNum r) = (r \<noteq> 0)"
| "truthy (JStr s) = (s \<noteq> [])"
| "truthy (JArr xs) = True"
| "truthy (JObj fs) = True"
| "truthy (JInherited k) = True"

definition js_or :: "jsval \<Rightarrow> jsval \<Rightarrow> jsval" where
  "js_or v d = (if truthy v then v else d)"

text \<open>
  Every raise of the modelled code is a value of \<open>error\<close>. \<open>Failure m\<close> is an error raised
  by a collaborator outside the modelled code (the store, the router, the model client, a
  constructor), with its message.
\<close>

datatype error =
    TypeError
  | ClientNotInitialized
  | NoResponseContent
  | MissingDelimiters
  | JsonSyntaxError
  | Failure string

text \<open>
  Member access \<open>v.k\<close>. It raises a \<open>TypeError\<close> on \<open>undefined\<close> and \<open>null\<close>. The program
  reads the members \<open>analysis\<close>, \<open>classification\<close>, \<open>intent\<close>, \<open>entities\<close>, \<open>urgency\<close>,
  \<open>action\<close>, \<open>messageId\<close> and \<open>technical_terms\<close> in this way; none of them is a member of a
  string, a number, a boolean, an array or of \<open>Object.prototype\<close>, so on anything but an
  object with that own property the access gives \<open>undefined\<close>. \<open>opt_field\<close> is the optional
  chain \<open>v?.k\<close>.
\<close>

fun field_of :: "jsval \<Rightarrow> string \<Rightarrow> jsval" where
  "field_of (JObj fs) k = (case map_of fs k of Some x \<Rightarrow> x | None \<Rightarrow> JUndefined)"
| "field_of v k = JUndefined"

definition nullish :: "jsval \<Rightarrow> bool" where
  "nullish v \<longleftrightarrow> v = JUndefined \<or> v = JNull"

definition get_field :: "jsval \<Rightarrow> string \<Rightarrow> error + jsval" where
  "get_field v k = (if nullish v then Inl TypeError else Inr (field_of v k))"

definition opt_field :: "jsval \<Rightarrow> string \<Rightarrow> jsval" where
  "opt_field v k = (if nullish v then JUndefined else field_of v k)"

text \<open>
  Indexing a lookup table \<open>table[v]\<close> turns \<open>v\<close> into a property key first. An object
  is asked for its \<open>toString\<close>: an object built by \<open>JSON.parse\<close> inherits the one of
  \<open>Object.prototype\<close>, which gives \<open>[object Object]\<close>, unless it has a property \<open>toString\<close>
  of its own, which is no function, and then the conversion raises a \<open>TypeError\<close>. An
  array becomes its elements' keys joined by commas, with \<open>null\<close> and \<open>undefined\<close>
  elements as empty strings, and raises when an element does. \<open>key_raises\<close> tells
  whether the conversion raises. A number becomes a string of digits, sign, point and
  exponent, which is a key of no table of this program and of no member of
  \<open>Object.prototype\<close>: \<open>property_key\<close> gives \<open>None\<close> for it and the lookup gives
  \<open>undefined\<close>.
\<close>

fun key_raises :: "jsval \<Rightarrow> bool"
  and keys_raise :: "jsval list \<Rightarrow> bool" where
  "key_raises (JObj fs) = (map_of fs ''toString'' \<noteq> None)"
| "key_raises (JArr xs) = keys_raise xs"
| "key_raises JUndefined = False"
| "key_raises JNull = False"
| "key_raises (JBool b) = False"
| "key_raises (JNum r) = False"
| "key_raises (JStr s) = False"
| "key_raises (JInherited k) = False"
| "keys_raise [] = False"
| "keys_raise (x # xs) = (key_raises x \<or> keys_raise xs)"

fun property_key :: "jsval \<Rightarrow> string option"
  and joined_keys :: "jsval list \<Rightarrow> string option" where
  "property_key JUndefined = Some ''undefined''"
| "property_key JNull = Some ''null''"
| "property_key (JBool b) = Some (if b then ''true'' else ''false'')"
| "property_key (JNum r) = None"
| "property_key (JStr s) = Some s"
| "property_key (JArr xs) = joined_keys xs"
| "property_key (JObj fs) = Some ''[object Object]''"
| "property_key (JInherited k) = None"
| "joined_keys [] = Some []"
| "joined_keys (x # xs) =
     (case (if nullish x then Some [] else property_key x) of
        None \<Rightarrow> None
      | Some k \<Rightarrow>
          (if xs = [] then Some k
           else (case joined_keys xs of None \<Rightarrow> None | Some r \<Rightarrow> Some (k @ '','' @ r))))"

definition object_prototype_members :: "string list" where
  "object_prototype_members =
     [''constructor'', ''__defineGetter__'', ''__defineSetter__'', ''hasOwnProperty'',
      ''__lookupGetter__'', ''__lookupSetter__'', ''isPrototypeOf'', ''propertyIsEnumerable'',
      ''toString'', ''valueOf'', ''__proto__'', ''toLocaleString'']"

definition table_lookup :: "(string \<times> jsval) list \<Rightarrow> jsval \<Rightarrow> error + jsval" where
  "table_lookup table v =
     (if key_raises v then Inl TypeError
      else Inr (case property_key v of
                  None \<Rightarrow> JUndefined
                | Some k \<Rightarrow>
                    (case map_of table k of
                       Some x \<Rightarrow> x
                     | None \<Rightarrow>
                         if k \<in> set object_prototype_members then JInherited k
                         else JUndefined)))"

text \<open>\<open>table[v] || d\<close>.\<close>

definition lookup_or :: "(string \<times> jsval) list \<Rightarrow> jsval \<Rightarrow> jsval \<Rightarrow> error + jsval" where
  "lookup_or table v d =
     (case table_lookup table v of Inl err \<Rightarrow> Inl err | Inr x \<Rightarrow> Inr (js_or x d))"

text \<open>
  An asynchronous method is a function from the state of its object to a result, an error
  or a value, and the state it leaves. \<open>and_then\<close> is \<open>await\<close> followed by the rest of the
  body; \<open>try_catch\<close> and \<open>try_finally\<close> are the statements of those names. The model runs
  one call from its start to its end: what another call does while this one waits is not
  part of it.
\<close>

type_synonym ('s, 'a) action = "'s \<Rightarrow> (error + 'a) \<times> 's"

definition succeed :: "'a \<Rightarrow> ('s, 'a) action" where
  "succeed x s = (Inr x, s)"

definition raise :: "error \<Rightarrow> ('s, 'a) action" where
  "raise e s = (Inl e, s)"

definition and_then :: "('s, 'a) action \<Rightarrow> ('a \<Rightarrow> ('s, 'b) action) \<Rightarrow> ('s, 'b) action" where
  "and_then m f s = (case m s of (Inl e, s') \<Rightarrow> (Inl e, s') | (Inr x, s') \<Rightarrow> f x s')"

definition try_catch :: "('s, 'a) action \<Rightarrow> (error \<Rightarrow> ('s, 'a) action) \<Rightarrow> ('s, 'a) action" where
  "try_catch m h s = (case m s of (Inl e, s') \<Rightarrow> h e s' | (Inr x, s') \<Rightarrow> (Inr x, s'))"

definition try_finally :: "('s, 'a) action \<Rightarrow> ('s \<Rightarrow> 's) \<Rightarrow> ('s, 'a) action" where
  "try_finally m g s = (case m s of (r, s') \<Rightarrow> (r, g s'))"

text \<open>Lifting the outcome of a call on a collaborator into an action.\<close>

definition from_result :: "error + 'a \<Rightarrow> ('s, 'a) action" where
  "from_result r s = (r, s)"

definition from_outcome :: "error option \<Rightarrow> ('s, unit) action" where
  "from_outcome r s = (case r of Some e \<Rightarrow> (Inl e, s) | None \<Rightarrow> (Inr (), s))"

text \<open>
  A call works on the state of its own object and on the log of what it did to its
  collaborators (the router, the store, the sockets), in the order it did it.
\<close>

definition on_self :: "('o \<Rightarrow> 'o) \<Rightarrow> ('o \<times> 'l, unit) action" where
  "on_self g w = (Inr (), (g (fst w), snd w))"

definition record_event :: "'ev \<Rightarrow> ('o \<times> 'ev list, unit) action" where
  "record_event ev w = (Inr (), (fst w, snd w @ [ev]))"

definition on_part ::
  "('o \<Rightarrow> 'p) \<Rightarrow> ('p \<Rightarrow> 'o \<Rightarrow> 'o) \<Rightarrow> ('p \<times> 'l, 'a) action \<Rightarrow> ('o \<times> 'l, 'a) action" where
  "on_part get put m w =
     (case m (get (fst w), snd w) of (r, w') \<Rightarrow> (r, (put (fst w') (fst w), snd w')))"

section \<open>Strings\<close>

text \<open>
  A string is the list of the bytes of its UTF-8 form. The texts this program searches
  for (the urgency keywords, the two delimiters) are ASCII, and an ASCII text occurs in
  the bytes exactly where it occurs in the string. \<open>includes_str s k\<close> is \<open>s.includes(k)\<close>.
\<close>

definition starts_with :: "string \<Rightarrow> string \<Rightarrow> bool" where
  "starts_with s k \<longleftrightarrow> take (length k) s = k"

fun includes_str :: "string \<Rightarrow> string \<Rightarrow> bool" where
  "includes_str [] k = (k = [])"
| "includes_str (c # cs) k = (starts_with (c # cs) k \<or> includes_str cs k)"

text \<open>
  \<open>String.prototype.toLowerCase\<close> is part of the platform: the collaborators below carry
  it as \<open>to_lower_case\<close>. On a text of ASCII characters it is \<open>ascii_lower\<close>, which maps
  the letters A to Z to a to z and leaves every other character as it is; beyond ASCII it
  follows the case mapping of Unicode (the Kelvin sign becomes the letter k). \<open>is_ascii\<close>
  tells an ASCII text, and \<open>case_variant a b\<close> that \<open>a\<close> is \<open>b\<close> or the capital of the
  small letter \<open>b\<close>.
\<close>

definition capital_letters :: string where
  "capital_letters = ''ABCDEFGHIJKLMNOPQRSTUVWXYZ''"

definition small_letters :: string where
  "small_letters = ''abcdefghijklmnopqrstuvwxyz''"

definition lower_char :: "char \<Rightarrow> char" where
  "lower_char c =
     (case map_of (zip capital_letters small_letters) c of
        Some l \<Rightarrow> l
      | None \<Rightarrow> c)"

definition ascii_lower :: "string \<Rightarrow> string" where
  "ascii_lower s = map lower_char s"

definition is_ascii :: "string \<Rightarrow> bool" where
  "is_ascii s \<longleftrightarrow> list_all (\<lambda>c. of_char c < (128 :: nat)) s"

definition case_variant :: "char \<Rightarrow> char \<Rightarrow> bool" where
  "case_variant a b \<longleftrightarrow> a = b \<or> (a, b) \<in> set (zip capital_letters small_letters)"

text \<open>
  \<open>split_first d s\<close>: the text before the first occurrence of \<open>d\<close> in \<open>s\<close> and the text
  after it.
\<close>

fun split_first :: "string \<Rightarrow> string \<Rightarrow> (string \<times> string) option" where
  "split_first d [] = (if d = [] then Some ([], []) else None)"
| "split_first d (c # cs) =
     (if starts_with (c # cs) d then Some ([], drop (length d) (c # cs))
      else (case split_first d cs of
              None \<Rightarrow> None
            | Some (before, after) \<Rightarrow> Some (c # before, after)))"

section \<open>Messages\<close>

text \<open>
  \<open>UserMessage\<close> as \<open>handleIncomingMessage\<close> builds it; the fields of its \<open>context\<close> are
  \<open>um_incoming\<close> (the caller's context, spread first), \<open>um_currentTasks\<close> and
  \<open>um_userStatus\<close>.
\<close>

record UserMessage =
  um_id :: string
  um_userId :: string
  um_userName :: string
  um_content :: string
  um_incoming :: "(string \<times> jsval) list"
  um_currentTasks :: "jsval list"
  um_userStatus :: string
  um_timestamp :: nat
  um_status :: string

record ProcessedMessage =
  pm_originalMessage :: UserMessage
  pm_intent :: jsval
  pm_entities :: jsval
  pm_urgency :: jsval
  pm_suggestedAction :: jsval
  pm_agentId :: string
  pm_processedAt :: nat

datatype recommendation =
    ConnectWithExpert "string list"
  | EscalateToCoordinator
  | InitiateCollaboration

datatype payload =
    AnalysisReport jsval jsval
  | ProcessedReport ProcessedMessage "recommendation list" "string list"
  | UserRegistered string jsval
  | UserDeparted string

record Envelope =
  e_type :: string
  e_source :: string
  e_target :: string
  e_payload :: payload
  e_priority :: jsval
  e_timestamp :: nat
  e_correlationId :: jsval

datatype socket_message =
    Response string jsval
  | Acknowledgment string
  | ErrorNotice string string

text \<open>
  What a call did to its collaborators: a completed \<open>messageRouter.sendMessage\<close>, a
  document added to \<open>processed_messages\<close> (message id, analysis, classification, worker)
  or to \<open>processing_errors\<close> (message id, error), a message emitted on a user's socket,
  and a call of \<open>enqueue\<close> (with its arguments) or of \<open>dequeue\<close> (with its result) on the
  message queue. Log lines are not part of the model.
\<close>

datatype event =
    Published Envelope
  | StoredProcessed string jsval jsval string
  | StoredError string error
  | Emitted string socket_message
  | Enqueued UserMessage int
  | Dequeued "UserMessage option"

text \<open>
  The collaborators of one call, as the outcomes of the calls made on them: the clock and
  the random id; \<open>String.prototype.toLowerCase\<close>; the three reads of the user's record
  that build the message; the model client (\<open>client_ready\<close>: the check on the client
  object; \<open>completion\<close>: the content of the reply's first choice, \<open>None\<close> for a missing
  one, or the error of the call);
  \<open>parse_trimmed s\<close> is \<open>JSON.parse(s.trim())\<close>, \<open>None\<close> when it raises; \<open>send_outcome\<close> is
  the router's \<open>sendMessage\<close>; \<open>store_outcome c\<close> is adding a document to collection \<open>c\<close>;
  \<open>experts_found\<close> and \<open>affected_users\<close> are the queries of \<open>findUsersWithExpertise\<close> and
  \<open>identifyAffectedUsers\<close>; \<open>analysis_reply\<close> is the text \<open>generateUserResponse\<close> builds from
  a stored coordination analysis, \<open>None\<close> when there is none or building it failed.
\<close>

record collaborators =
  clock :: nat
  fresh_id :: string
  to_lower_case :: "string \<Rightarrow> string"
  user_name_read :: "error + string option"
  user_tasks_read :: "error + jsval list"
  user_status_read :: "error + string option"
  client_ready :: bool
  completion :: "error + string option"
  parse_trimmed :: "string \<Rightarrow> jsval option"
  send_outcome :: "Envelope \<Rightarrow> error option"
  store_outcome :: "string \<Rightarrow> error option"
  experts_found :: "jsval \<Rightarrow> error + string list"
  affected_users :: "ProcessedMessage \<Rightarrow> error + string list"
  analysis_reply :: "string option"

definition sendMessage_via :: "collaborators \<Rightarrow> Envelope \<Rightarrow> ('o \<times> event list, unit) action" where
  "sendMessage_via env e =
     and_then (from_outcome (send_outcome env e)) (\<lambda>_. record_event (Published e))"

section \<open>The worker: UserMessageProcessor\<close>

text \<open>
  The class of \<open>agents/communication/userMessageProcessor.ts\<close>, in the version with the
  delimited reply and the fallback result. \<open>processingQueue\<close> holds the keys of the map
  of that name; the class reads its size and never writes to it.
\<close>

record UserMessageProcessor =
  agentId :: string
  processingQueue :: "string list"
  isProcessing :: bool

definition isAvailable :: "UserMessageProcessor \<Rightarrow> bool" where
  "isAvailable p \<longleftrightarrow> \<not> isProcessing p \<and> length (processingQueue p) < 5"

definition queueSize :: "UserMessageProcessor \<Rightarrow> nat" where
  "queueSize p = length (processingQueue p)"

definition priorityMap :: "(string \<times> jsval) list" where
  "priorityMap = [(''critical'', JNum 1), (''high'', JNum 2), (''medium'', JNum 3), (''low'', JNum 4)]"

definition mapUrgencyToPriority :: "jsval \<Rightarrow> error + jsval" where
  "mapUrgencyToPriority urgency = lookup_or priorityMap urgency (JNum 3)"

definition start_delimiter :: string where
  "start_delimiter = ''---ANALYSIS_JSON_START---''"

definition end_delimiter :: string where
  "end_delimiter = ''---ANALYSIS_JSON_END---''"

text \<open>
  The first group of the match of
  \<open>/---ANALYSIS_JSON_START---([\s\S]*?)---ANALYSIS_JSON_END---/\<close>: the text between the first
  start delimiter and the first end delimiter after it; \<open>None\<close> when there is no match.
\<close>

definition match_delimited :: "string \<Rightarrow> string option" where
  "match_delimited s =
     (case split_first start_delimiter s of
        None \<Rightarrow> None
      | Some (before, rest) \<Rightarrow>
          (case split_first end_delimiter rest of
             None \<Rightarrow> None
           | Some (body, after) \<Rightarrow> Some body))"

definition empty_entities :: jsval where
  "empty_entities =
     JObj [(''tasks'', JArr []), (''users'', JArr []), (''technical_terms'', JArr []),
           (''files'', JArr [])]"

definition fallback_analysis :: jsval where
  "fallback_analysis =
     JObj [(''intent'', JStr ''help''),
           (''entities'', empty_entities),
           (''emotional_tone'', JStr ''neutral''),
           (''requires_action'', JBool True),
           (''action_type'', JStr ''immediate''),
           (''expertise_needed'', JArr [JStr ''general'']),
           (''messageId'', JStr ''fallback'')]"

definition fallback_classification :: jsval where
  "fallback_classification =
     JObj [(''urgency'', JStr ''medium''),
           (''category'', JStr ''help''),
           (''route_to'', JArr [JStr ''decision_engine'']),
           (''action'', JStr ''provide_help''),
           (''confidence'', JNum (1 / 2))]"

text \<open>
  The \<open>try\<close> block of \<open>analyzeAndClassifyMessage\<close>: the match, the parse, and the reads of
  \<open>result.analysis\<close> and \<open>result.classification\<close>, which raise on a \<open>null\<close> result.
\<close>

definition extract_result :: "collaborators \<Rightarrow> string \<Rightarrow> ('s, jsval \<times> jsval) action" where
  "extract_result env content =
     (case match_delimited content of
        None \<Rightarrow> raise MissingDelimiters
      | Some body \<Rightarrow>
          if body = [] then raise MissingDelimiters
          else (case parse_trimmed env body of
                  None \<Rightarrow> raise JsonSyntaxError
                | Some result \<Rightarrow>
                    and_then (from_result (get_field result ''analysis'')) (\<lambda>analysis.
                    and_then (from_result (get_field result ''classification'')) (\<lambda>classification.
                    succeed (analysis, classification)))))"

definition analyzeAndClassifyMessage ::
  "collaborators \<Rightarrow> UserMessage \<Rightarrow> (UserMessageProcessor \<times> event list, jsval \<times> jsval) action" where
  "analyzeAndClassifyMessage env message =
     (if \<not> client_ready env then raise ClientNotInitialized
      else and_then (from_result (completion env)) (\<lambda>content.
        (case content of
           None \<Rightarrow> raise NoResponseContent
         | Some c \<Rightarrow>
             if c = [] then raise NoResponseContent
             else try_catch (extract_result env c)
                    (\<lambda>parseError. succeed (fallback_analysis, fallback_classification)))))"

definition reportToDecisionEngine ::
  "collaborators \<Rightarrow> jsval \<Rightarrow> jsval \<Rightarrow> (UserMessageProcessor \<times> event list, unit) action" where
  "reportToDecisionEngine env analysis classification w =
     and_then (from_result (get_field classification ''urgency'')) (\<lambda>urgency.
     and_then (from_result (mapUrgencyToPriority urgency)) (\<lambda>priority.
     and_then (from_result (get_field analysis ''messageId'')) (\<lambda>messageId.
       sendMessage_via env
         \<lparr>e_type = ''USER_COMMUNICATION'',
          e_source = ''user_message_processor_'' @ agentId (fst w),
          e_target = ''decision_engine'',
          e_payload = AnalysisReport analysis classification,
          e_priority = priority,
          e_timestamp = clock env,
          e_correlationId = messageId\<rparr>))) w"

definition storeProcessedMessage ::
  "collaborators \<Rightarrow> UserMessage \<Rightarrow> jsval \<Rightarrow> jsval \<Rightarrow>
   (UserMessageProcessor \<times> event list, unit) action" where
  "storeProcessedMessage env message analysis classification w =
     and_then (from_outcome (store_outcome env ''processed_messages'')) (\<lambda>_.
       record_event (StoredProcessed (um_id message) analysis classification (agentId (fst w)))) w"

definition processUserMessage ::
  "collaborators \<Rightarrow> UserMessage \<Rightarrow> (UserMessageProcessor \<times> event list, ProcessedMessage) action" where
  "processUserMessage env message =
     try_finally
       (and_then (on_self (\<lambda>p. p\<lparr>isProcessing := True\<rparr>)) (\<lambda>_.
        and_then (analyzeAndClassifyMessage env message) (\<lambda>(analysis, classification).
        and_then (reportToDecisionEngine env analysis classification) (\<lambda>_.
        and_then (storeProcessedMessage env message analysis classification) (\<lambda>_ w.
          succeed
            \<lparr>pm_originalMessage = message,
             pm_intent = js_or (opt_field analysis ''intent'') (JStr ''help''),
             pm_entities = js_or (opt_field analysis ''entities'') empty_entities,
             pm_urgency = js_or (opt_field classification ''urgency'') (JStr ''medium''),
             pm_suggestedAction = js_or (opt_field classification ''action'') (JStr ''provide_help''),
             pm_agentId = agentId (fst w),
             pm_processedAt = clock env\<rparr> w)))))
       (\<lambda>w. ((fst w)\<lparr>isProcessing := False\<rparr>, snd w))"

section \<open>The hub: UserCommunicationHub\<close>

text \<open>
  \<open>activeConnections\<close> holds the user ids that have a socket in the map of that name.
\<close>

record UserCommunicationHub =
  processor1 :: UserMessageProcessor
  processor2 :: UserMessageProcessor
  messageQueue :: "UserMessage PriorityQueue"
  activeConnections :: "string list"

datatype processor_ref = Processor1 | Processor2

fun processor_of :: "UserCommunicationHub \<Rightarrow> processor_ref \<Rightarrow> UserMessageProcessor" where
  "processor_of hub Processor1 = processor1 hub"
| "processor_of hub Processor2 = processor2 hub"

fun other_ref :: "processor_ref \<Rightarrow> processor_ref" where
  "other_ref Processor1 = Processor2"
| "other_ref Processor2 = Processor1"

fun put_processor ::
  "processor_ref \<Rightarrow> UserMessageProcessor \<Rightarrow> UserCommunicationHub \<Rightarrow> UserCommunicationHub" where
  "put_processor Processor1 p hub = hub\<lparr>processor1 := p\<rparr>"
| "put_processor Processor2 p hub = hub\<lparr>processor2 := p\<rparr>"

definition getAvailableProcessor :: "UserCommunicationHub \<Rightarrow> processor_ref" where
  "getAvailableProcessor hub =
     (if isAvailable (processor1 hub) then
        (if \<not> isAvailable (processor2 hub) then Processor1
         else if queueSize (processor1 hub) \<le> queueSize (processor2 hub) then Processor1
         else Processor2)
      else Processor2)"

definition urgentKeywords :: "string list" where
  "urgentKeywords = [''blocked'', ''critical'', ''urgent'', ''help'', ''error'', ''broken'']"

definition calculateMessagePriority :: "collaborators \<Rightarrow> UserMessage \<Rightarrow> int" where
  "calculateMessagePriority env message =
     (if list_ex (\<lambda>keyword. includes_str (to_lower_case env (um_content message)) keyword)
           urgentKeywords
      then 1
      else if um_userStatus message = ''blocked'' then 2
      else 3)"

definition getUserName :: "collaborators \<Rightarrow> ('s, string) action" where
  "getUserName env =
     and_then (from_result (user_name_read env)) (\<lambda>name.
       succeed (case name of None \<Rightarrow> ''Unknown User''
                | Some n \<Rightarrow> if n = [] then ''Unknown User'' else n))"

definition getUserCurrentTasks :: "collaborators \<Rightarrow> ('s, jsval list) action" where
  "getUserCurrentTasks env = from_result (user_tasks_read env)"

definition getUserStatus :: "collaborators \<Rightarrow> ('s, string) action" where
  "getUserStatus env =
     and_then (from_result (user_status_read env)) (\<lambda>status.
       succeed (case status of None \<Rightarrow> ''active''
                | Some t \<Rightarrow> if t = [] then ''active'' else t))"

definition determinePriority :: "ProcessedMessage \<Rightarrow> error + jsval" where
  "determinePriority processed = lookup_or priorityMap (pm_urgency processed) (JNum 3)"

definition responses :: "(string \<times> jsval) list" where
  "responses =
     [(''help'', JStr ''I'm analyzing your project status and will provide detailed insights shortly...''),
      (''question'', JStr ''Let me find that information for you...''),
      (''feedback'', JStr ''Thank you for your feedback. I've shared it with the team.''),
      (''issue'', JStr ''I've logged this issue and notified the relevant team members.''),
      (''status_update'', JStr ''Status update received. The progress map has been updated.''),
      (''collaboration'', JStr ''I'm setting up a collaboration session for you.'')]"

definition received_text :: string where
  "received_text = ''Message received and being processed.''"

definition acknowledgment_text :: string where
  "acknowledgment_text = ''I'm processing your message and will respond shortly.''"

text \<open>
  \<open>generateUserResponse\<close> catches every error of its reads of the stored analysis; the
  lookup \<open>responses[processed.intent]\<close> after them can still raise.
\<close>

definition generateUserResponse ::
  "collaborators \<Rightarrow> ProcessedMessage option \<Rightarrow> error + jsval" where
  "generateUserResponse env processed =
     (case processed of
        None \<Rightarrow> Inr (JStr received_text)
      | Some p \<Rightarrow>
          if \<not> truthy (pm_intent p) then Inr (JStr received_text)
          else (case analysis_reply env of
                  Some reply \<Rightarrow> Inr (JStr reply)
                | None \<Rightarrow> lookup_or responses (pm_intent p) (JStr received_text)))"

text \<open>\<open>v.length === 0\<close> for a truthy \<open>v\<close>.\<close>

fun length_is_zero :: "jsval \<Rightarrow> bool" where
  "length_is_zero (JArr xs) = (xs = [])"
| "length_is_zero (JStr s) = (s = [])"
| "length_is_zero (JObj fs) = (map_of fs ''length'' = Some (JNum 0))"
| "length_is_zero v = False"

definition findUsersWithExpertise :: "collaborators \<Rightarrow> jsval \<Rightarrow> ('s, string list) action" where
  "findUsersWithExpertise env entities =
     and_then (from_result (get_field entities ''technical_terms'')) (\<lambda>terms.
       if length_is_zero (js_or terms (JArr [])) then succeed []
       else from_result (experts_found env (js_or terms (JArr []))))"

definition generateRecommendations ::
  "collaborators \<Rightarrow> ProcessedMessage option \<Rightarrow> ('s, recommendation list) action" where
  "generateRecommendations env processed =
     (case processed of
        None \<Rightarrow> succeed []
      | Some p \<Rightarrow>
          if \<not> truthy (pm_intent p) then succeed []
          else
            and_then
              (if pm_intent p = JStr ''help''
               then and_then (findUsersWithExpertise env (pm_entities p))
                      (\<lambda>helpers. succeed [ConnectWithExpert helpers])
               else succeed [])
              (\<lambda>first. succeed
                 (first
                  @ (if pm_urgency p = JStr ''critical'' then [EscalateToCoordinator] else [])
                  @ (if pm_intent p = JStr ''collaboration'' then [InitiateCollaboration] else []))))"

definition sendUserResponse ::
  "collaborators \<Rightarrow> ProcessedMessage option \<Rightarrow> (UserCommunicationHub \<times> event list, unit) action" where
  "sendUserResponse env processed w =
     (case processed of
        None \<Rightarrow> succeed () w
      | Some p \<Rightarrow>
          if um_userId (pm_originalMessage p) = [] then succeed () w
          else if um_userId (pm_originalMessage p) \<in> set (activeConnections (fst w))
          then and_then (from_result (generateUserResponse env processed)) (\<lambda>response.
                 record_event
                   (Emitted (um_userId (pm_originalMessage p))
                      (Response (um_id (pm_originalMessage p)) response))) w
          else succeed () w)"

definition handleProcessedMessage ::
  "collaborators \<Rightarrow> ProcessedMessage option \<Rightarrow> (UserCommunicationHub \<times> event list, unit) action" where
  "handleProcessedMessage env processed =
     (case processed of
        None \<Rightarrow> succeed ()
      | Some p \<Rightarrow>
          if \<not> truthy (pm_intent p) then succeed ()
          else
            and_then (generateRecommendations env processed) (\<lambda>recommendations.
            and_then (from_result (affected_users env p)) (\<lambda>affected.
            and_then (from_result (determinePriority p)) (\<lambda>priority.
            and_then
              (sendMessage_via env
                 \<lparr>e_type = ''USER_COMMUNICATION'',
                  e_source = ''user_communication_hub'',
                  e_target = ''decision_engine'',
                  e_payload = ProcessedReport p recommendations affected,
                  e_priority = priority,
                  e_timestamp = clock env,
                  e_correlationId = JUndefined\<rparr>) (\<lambda>_.
            sendUserResponse env processed)))))"

definition sendAcknowledgment :: "string \<Rightarrow> string \<Rightarrow> (UserCommunicationHub \<times> event list, unit) action" where
  "sendAcknowledgment userId messageId w =
     (if userId \<in> set (activeConnections (fst w))
      then record_event (Emitted userId (Acknowledgment messageId)) w
      else succeed () w)"

definition handleProcessingError ::
  "collaborators \<Rightarrow> error \<Rightarrow> UserMessage \<Rightarrow> (UserCommunicationHub \<times> event list, unit) action" where
  "handleProcessingError env err message =
     and_then (from_outcome (store_outcome env ''processing_errors'')) (\<lambda>_.
     and_then (record_event (StoredError (um_id message) err)) (\<lambda>_ w.
       (if um_userId message \<in> set (activeConnections (fst w))
        then record_event
               (Emitted (um_userId message)
                  (ErrorNotice (um_id message) ''Failed to process message. Please try again.'')) w
        else succeed () w)))"

text \<open>A call on one of the two workers, from the hub.\<close>

definition on_processor ::
  "processor_ref \<Rightarrow> (UserMessageProcessor \<times> event list, 'a) action \<Rightarrow>
   (UserCommunicationHub \<times> event list, 'a) action" where
  "on_processor r m = on_part (\<lambda>hub. processor_of hub r) (put_processor r) m"

text \<open>
  \<open>this.messageQueue.enqueue(message, priority)\<close> and \<open>this.messageQueue.dequeue()\<close>, each
  with its entry in the log.
\<close>

definition queue_enqueue ::
  "UserMessage \<Rightarrow> int \<Rightarrow> (UserCommunicationHub \<times> event list, unit) action" where
  "queue_enqueue message priority =
     and_then (on_self (\<lambda>hub. hub\<lparr>messageQueue := enqueue (messageQueue hub) message priority\<rparr>))
       (\<lambda>_. record_event (Enqueued message priority))"

definition queue_dequeue :: "(UserCommunicationHub \<times> event list, UserMessage option) action" where
  "queue_dequeue w =
     (case dequeue (messageQueue (fst w)) of
        (message, q) \<Rightarrow> (Inr message, ((fst w)\<lparr>messageQueue := q\<rparr>, snd w @ [Dequeued message])))"

definition build_message ::
  "collaborators \<Rightarrow> string \<Rightarrow> string \<Rightarrow> (string \<times> jsval) list \<Rightarrow> ('s, UserMessage) action" where
  "build_message env userId message incoming =
     and_then (getUserName env) (\<lambda>userName.
     and_then (getUserCurrentTasks env) (\<lambda>currentTasks.
     and_then (getUserStatus env) (\<lambda>userStatus.
       succeed
         \<lparr>um_id = fresh_id env,
          um_userId = userId,
          um_userName = userName,
          um_content = message,
          um_incoming = incoming,
          um_currentTasks = currentTasks,
          um_userStatus = userStatus,
          um_timestamp = clock env,
          um_status = ''pending''\<rparr>)))"

text \<open>The \<open>try\<close> block of \<open>handleIncomingMessage\<close>, and its \<open>catch\<close> block.\<close>

definition process_immediately ::
  "collaborators \<Rightarrow> UserMessage \<Rightarrow> (UserCommunicationHub \<times> event list, jsval) action" where
  "process_immediately env userMessage w =
     and_then (on_processor (getAvailableProcessor (fst w)) (processUserMessage env userMessage))
       (\<lambda>processed.
     and_then (handleProcessedMessage env (Some processed)) (\<lambda>_.
       from_result (generateUserResponse env (Some processed)))) w"

definition fall_back_to_queue ::
  "collaborators \<Rightarrow> UserMessage \<Rightarrow> (UserCommunicationHub \<times> event list, jsval) action" where
  "fall_back_to_queue env userMessage =
     and_then (queue_enqueue userMessage (calculateMessagePriority env userMessage)) (\<lambda>_.
     and_then (sendAcknowledgment (um_userId userMessage) (um_id userMessage)) (\<lambda>_.
       succeed (JStr acknowledgment_text)))"

text \<open>The value of \<open>handleIncomingMessage\<close> is the \<open>aiResponse\<close> of the object it returns.\<close>

definition handleIncomingMessage ::
  "collaborators \<Rightarrow> string \<Rightarrow> string \<Rightarrow> (string \<times> jsval) list \<Rightarrow>
   (UserCommunicationHub \<times> event list, jsval) action" where
  "handleIncomingMessage env userId message incoming =
     and_then (build_message env userId message incoming) (\<lambda>userMessage.
       try_catch (process_immediately env userMessage)
         (\<lambda>err. fall_back_to_queue env userMessage))"

definition processMessage ::
  "collaborators \<Rightarrow> processor_ref \<Rightarrow> UserMessage \<Rightarrow> (UserCommunicationHub \<times> event list, unit) action" where
  "processMessage env processor message =
     try_catch
       (and_then (on_processor processor (processUserMessage env message)) (\<lambda>processed.
          handleProcessedMessage env (Some processed)))
       (\<lambda>err. handleProcessingError env err message)"

text \<open>
  The callback that \<open>startQueueProcessor\<close> hands to \<open>setInterval\<close> calls
  \<open>this.processMessage(processor, message)\<close> and does not wait for it. That call runs up
  to its first \<open>await\<close> before the callback returns: \<open>processUserMessage\<close> has set
  \<open>isProcessing\<close> on the worker by then and waits for the model's reply, which is
  \<open>begin_processMessage\<close>. The rest of the call runs after the callback has returned;
  in the model, the whole call is \<open>processMessage\<close> run on the state the callback left
  (setting \<open>isProcessing\<close> a second time changes nothing).
\<close>

definition begin_processMessage ::
  "processor_ref \<Rightarrow> (UserCommunicationHub \<times> event list, unit) action" where
  "begin_processMessage processor =
     on_processor processor (on_self (\<lambda>p. p\<lparr>isProcessing := True\<rparr>))"

text \<open>
  One run of the callback: its value is the call \<open>processMessage(processor, message)\<close> it
  started, if any.
\<close>

definition queue_tick ::
  "(UserCommunicationHub \<times> event list, (processor_ref \<times> UserMessage) option) action" where
  "queue_tick w =
     (if \<not> isEmpty (messageQueue (fst w)) then
        and_then queue_dequeue (\<lambda>message.
          (case message of
             None \<Rightarrow> succeed None
           | Some m \<Rightarrow> (\<lambda>w'.
               and_then (begin_processMessage (getAvailableProcessor (fst w')))
                 (\<lambda>_. succeed (Some (getAvailableProcessor (fst w'), m))) w'))) w
      else succeed None w)"

text \<open>
  \<open>startQueueProcessor\<close> hands \<open>setInterval\<close> the callback and the interval of 100
  milliseconds.
\<close>

record 'a timer =
  callback :: 'a
  interval_ms :: nat

definition startQueueProcessor ::
  "((UserCommunicationHub \<times> event list, (processor_ref \<times> UserMessage) option) action) timer" where
  "startQueueProcessor = \<lparr>callback = queue_tick, interval_ms = 100\<rparr>"

section \<open>The agent registry: AgentManager\<close>

datatype agent =
    RoadmapOrchestrator
  | RepositoryScannerManager
  | ProgressCoordinator
  | DecisionEngine
  | UserCompiler string
  | CodeExtractor
  | EditCoordinator
  | CommunicationHub

text \<open>
  \<open>agents\<close> is the map of that name, as its entries in insertion order: \<open>map_set\<close> replaces
  the value of a key that is there and appends a new key, \<open>map_delete\<close> removes a key.
\<close>

record AgentManager =
  agents :: "(string \<times> agent) list"
  initialized :: bool

fun map_set :: "'k \<Rightarrow> 'v \<Rightarrow> ('k \<times> 'v) list \<Rightarrow> ('k \<times> 'v) list" where
  "map_set k v [] = [(k, v)]"
| "map_set k v (p # ps) = (if fst p = k then (k, v) # ps else p # map_set k v ps)"

definition map_delete :: "'k \<Rightarrow> ('k \<times> 'v) list \<Rightarrow> ('k \<times> 'v) list" where
  "map_delete k m = filter (\<lambda>p. fst p \<noteq> k) m"

text \<open>
  What a call of the manager did to its collaborators: the three core services
  initialised, an agent constructed, monitoring and tracking started on the registered
  ids, a user document written, an envelope sent, an agent's \<open>cleanup\<close> run, an id
  deleted from the registry, and a user's stored status updated.
\<close>

datatype manager_event =
    RouterInitialized
  | HealthMonitorInitialized
  | TokenManagerInitialized
  | Constructed agent
  | MonitoringStarted "string list"
  | TrackingStarted "string list"
  | UserWritten string jsval
  | Sent Envelope
  | CleanedUp string
  | Unregistered string
  | UserStatusUpdated string

text \<open>
  The manager's collaborators, as the outcomes of the calls made on them. \<open>cleanup_hook a\<close>
  is \<open>None\<close> when agent \<open>a\<close> has no \<open>cleanup\<close> method, and the outcome of calling it
  otherwise. \<open>users_read\<close> gives the ids of the documents of the \<open>users\<close> collection.
\<close>

record manager_collaborators =
  m_clock :: nat
  router_init_outcome :: "error option"
  health_init_outcome :: "error option"
  token_init_outcome :: "error option"
  construct_outcome :: "agent \<Rightarrow> error option"
  users_read :: "error + string list"
  monitoring_outcome :: "error option"
  tracking_outcome :: "error option"
  cleanup_hook :: "agent \<Rightarrow> error option option"
  user_write_outcome :: "string \<Rightarrow> error option"
  user_update_outcome :: "string \<Rightarrow> error option"
  m_send_outcome :: "Envelope \<Rightarrow> error option"

text \<open>\<open>new C(...)\<close> followed by \<open>this.agents.set(key, instance)\<close>.\<close>

definition construct_agent ::
  "manager_collaborators \<Rightarrow> string \<Rightarrow> agent \<Rightarrow> (AgentManager \<times> manager_event list, unit) action" where
  "construct_agent env key a =
     and_then (from_outcome (construct_outcome env a)) (\<lambda>_.
     and_then (record_event (Constructed a)) (\<lambda>_.
       on_self (\<lambda>mgr. mgr\<lparr>agents := map_set key a (agents mgr)\<rparr>)))"

fun construct_user_compilers ::
  "manager_collaborators \<Rightarrow> string list \<Rightarrow> (AgentManager \<times> manager_event list, unit) action" where
  "construct_user_compilers env [] = succeed ()"
| "construct_user_compilers env (userId # rest) =
     and_then (construct_agent env (''user_compiler_'' @ userId) (UserCompiler userId))
       (\<lambda>_. construct_user_compilers env rest)"

definition initializeUserCompilers ::
  "manager_collaborators \<Rightarrow> (AgentManager \<times> manager_event list, unit) action" where
  "initializeUserCompilers env =
     and_then (from_result (users_read env)) (\<lambda>users. construct_user_compilers env users)"

definition initializeAgents ::
  "manager_collaborators \<Rightarrow> (AgentManager \<times> manager_event list, unit) action" where
  "initializeAgents env =
     and_then (construct_agent env ''roadmap_orchestrator'' RoadmapOrchestrator) (\<lambda>_.
     and_then (construct_agent env ''repository_scanner_manager'' RepositoryScannerManager) (\<lambda>_.
     and_then (try_catch (construct_agent env ''progress_coordinator'' ProgressCoordinator)
                 (\<lambda>err. raise err)) (\<lambda>_.
     and_then (construct_agent env ''decision_engine'' DecisionEngine) (\<lambda>_.
     and_then (initializeUserCompilers env) (\<lambda>_.
     and_then (construct_agent env ''code_extractor'' CodeExtractor) (\<lambda>_.
     and_then (construct_agent env ''edit_coordinator'' EditCoordinator) (\<lambda>_.
       construct_agent env ''communication_hub'' CommunicationHub)))))))"

text \<open>The \<open>try\<close> block of \<open>initialize\<close>.\<close>

definition initialize_all ::
  "manager_collaborators \<Rightarrow> (AgentManager \<times> manager_event list, unit) action" where
  "initialize_all env =
     and_then (from_outcome (router_init_outcome env)) (\<lambda>_.
     and_then (record_event RouterInitialized) (\<lambda>_.
     and_then (from_outcome (health_init_outcome env)) (\<lambda>_.
     and_then (record_event HealthMonitorInitialized) (\<lambda>_.
     and_then (from_outcome (token_init_outcome env)) (\<lambda>_.
     and_then (record_event TokenManagerInitialized) (\<lambda>_.
     and_then (initializeAgents env) (\<lambda>_.
     and_then (from_outcome (monitoring_outcome env)) (\<lambda>_.
     and_then (\<lambda>w. record_event (MonitoringStarted (map fst (agents (fst w)))) w) (\<lambda>_.
     and_then (from_outcome (tracking_outcome env)) (\<lambda>_.
     and_then (\<lambda>w. record_event (TrackingStarted (map fst (agents (fst w)))) w) (\<lambda>_.
       on_self (\<lambda>mgr. mgr\<lparr>initialized := True\<rparr>))))))))))))"

definition initialize ::
  "manager_collaborators \<Rightarrow> (AgentManager \<times> manager_event list, unit) action" where
  "initialize env w =
     (if initialized (fst w) then succeed () w
      else try_catch (initialize_all env) (\<lambda>err. raise err) w)"

definition manager_send ::
  "manager_collaborators \<Rightarrow> Envelope \<Rightarrow> (AgentManager \<times> manager_event list, unit) action" where
  "manager_send env e = and_then (from_outcome (m_send_outcome env e)) (\<lambda>_. record_event (Sent e))"

definition addUser ::
  "manager_collaborators \<Rightarrow> string \<Rightarrow> jsval \<Rightarrow> (AgentManager \<times> manager_event list, unit) action" where
  "addUser env userId userData =
     and_then (from_outcome (user_write_outcome env userId)) (\<lambda>_.
     and_then (record_event (UserWritten userId userData)) (\<lambda>_.
     and_then (construct_agent env (''user_compiler_'' @ userId) (UserCompiler userId)) (\<lambda>_.
       manager_send env
         \<lparr>e_type = ''USER_REGISTERED'',
          e_source = ''agent_manager'',
          e_target = ''roadmap_orchestrator'',
          e_payload = UserRegistered userId userData,
          e_priority = JNum 1,
          e_timestamp = m_clock env,
          e_correlationId = JUndefined\<rparr>)))"

text \<open>The three parts of \<open>removeUser\<close>, in the order of the source.\<close>

definition notify_departure ::
  "manager_collaborators \<Rightarrow> string \<Rightarrow> (AgentManager \<times> manager_event list, unit) action" where
  "notify_departure env userId =
     manager_send env
       \<lparr>e_type = ''USER_DEPARTED'',
        e_source = ''agent_manager'',
        e_target = ''roadmap_orchestrator'',
        e_payload = UserDeparted userId,
        e_priority = JNum 1,
        e_timestamp = m_clock env,
        e_correlationId = JUndefined\<rparr>"

definition clean_up_compiler ::
  "manager_collaborators \<Rightarrow> string \<Rightarrow> (AgentManager \<times> manager_event list, unit) action" where
  "clean_up_compiler env userId w =
     and_then
       (case map_of (agents (fst w)) (''user_compiler_'' @ userId) of
          None \<Rightarrow> succeed ()
        | Some compiler \<Rightarrow>
            (case cleanup_hook env compiler of
               None \<Rightarrow> succeed ()
             | Some outcome \<Rightarrow>
                 and_then (from_outcome outcome) (\<lambda>_.
                   record_event (CleanedUp (''user_compiler_'' @ userId)))))
       (\<lambda>_.
          and_then
            (on_self (\<lambda>mgr. mgr\<lparr>agents := map_delete (''user_compiler_'' @ userId) (agents mgr)\<rparr>))
            (\<lambda>_. record_event (Unregistered (''user_compiler_'' @ userId)))) w"

definition update_user_status ::
  "manager_collaborators \<Rightarrow> string \<Rightarrow> (AgentManager \<times> manager_event list, unit) action" where
  "update_user_status env userId =
     and_then (from_outcome (user_update_outcome env userId)) (\<lambda>_.
       record_event (UserStatusUpdated userId))"

definition removeUser ::
  "manager_collaborators \<Rightarrow> string \<Rightarrow> (AgentManager \<times> manager_event list, unit) action" where
  "removeUser env userId =
     and_then (notify_departure env userId) (\<lambda>_.
     and_then (clean_up_compiler env userId) (\<lambda>_.
       update_user_status env userId))"

definition getAgent :: "AgentManager \<Rightarrow> string \<Rightarrow> agent option" where
  "getAgent mgr key = map_of (agents mgr) key"

section \<open>The router\<close>

text \<open>
  Modelled from the spec: the class \<open>MessageRouter\<close> of \<open>core/messageRouter.ts\<close>. The agents
  register handlers on it and call \<open>sendMessage\<close>, but its source is not among the files
  of the repository at hand. The definitions below follow section 4.2 of the
  specification: any number of handlers may be registered for a type; \<open>sendMessage\<close>
  invokes, in registration order, each handler registered for the envelope's type; an
  exception of a handler is caught and logged as a delivery error, the other handlers
  still run, and nothing is raised to the caller. A handler is what it does with an
  envelope: \<open>None\<close> when it returns, \<open>Some e\<close> when it raises \<open>e\<close>. The registrations are
  numbered in order, and the log tells which of them ran.
\<close>

type_synonym handler = "Envelope \<Rightarrow> error option"

record MessageRouter =
  handlers :: "(string \<times> handler) list"

datatype router_event =
    Invoked nat Envelope
  | DeliveryError nat error

definition registerHandler :: "string \<Rightarrow> handler \<Rightarrow> MessageRouter \<Rightarrow> MessageRouter" where
  "registerHandler t h router = router\<lparr>handlers := handlers router @ [(t, h)]\<rparr>"

fun dispatch :: "nat \<Rightarrow> (string \<times> handler) list \<Rightarrow> Envelope \<Rightarrow> router_event list" where
  "dispatch i [] e = []"
| "dispatch i ((t, h) # rest) e =
     (if t = e_type e
      then Invoked i e # (case h e of Some err \<Rightarrow> [DeliveryError i err] | None \<Rightarrow> [])
      else [])
     @ dispatch (Suc i) rest e"

definition sendMessage :: "Envelope \<Rightarrow> (MessageRouter \<times> router_event list, unit) action" where
  "sendMessage e w = (Inr (), (fst w, snd w @ dispatch 0 (handlers (fst w)) e))"

text \<open>How often registration \<open>i\<close> ran, by a log.\<close>

fun is_run_of :: "nat \<Rightarrow> router_event \<Rightarrow> bool" where
  "is_run_of i (Invoked j e) = (i = j)"
| "is_run_of i (DeliveryError j err) = False"

definition runs_of :: "nat \<Rightarrow> router_event list \<Rightarrow> nat" where
  "runs_of i evs = length (filter (is_run_of i) evs)"

section \<open>Sample inputs\<close>

text \<open>
  Concrete collaborators and states, on which the theorems below are evaluated. In
  \<open>sample_env\<close> every collaborator answers without an error, the user has no recorded
  status, and the model's reply holds a well-formed result between the delimiters, after
  a sentence of prose.
\<close>

definition sample_manager_env :: manager_collaborators where
  "sample_manager_env =
     \<lparr>m_clock = 1000,
      router_init_outcome = None,
      health_init_outcome = None,
      token_init_outcome = None,
      construct_outcome = (\<lambda>a. None),
      users_read = Inr [''u1''],
      monitoring_outcome = None,
      tracking_outcome = None,
      cleanup_hook = (\<lambda>a. None),
      user_write_outcome = (\<lambda>u. None),
      user_update_outcome = (\<lambda>u. None),
      m_send_outcome = (\<lambda>e. None)\<rparr>"

definition full_json :: string where
  \<open>full_json =
     ''{"analysis":{"intent":"issue","entities":{"tasks":[],"users":[],"technical_terms":[],"files":[]},"messageId":"msg_1"},"classification":{"urgency":"high","action":"escalate","confidence":0.9}}''\<close>

definition partial_json :: string where
  \<open>partial_json =
     ''{"analysis":{"messageId":"msg_1"},"classification":{"urgency":"high","action":"escalate","confidence":0.9}}''\<close>

definition keyless_urgency_json :: string where
  \<open>keyless_urgency_json =
     ''{"analysis":{"intent":"issue","messageId":"msg_1"},"classification":{"urgency":{"toString":1},"action":"escalate"}}''\<close>

definition keyless_intent_json :: string where
  \<open>keyless_intent_json =
     ''{"analysis":{"intent":{"toString":1},"messageId":"msg_1"},"classification":{"urgency":"high","action":"escalate"}}''\<close>

definition sample_reply :: string where
  "sample_reply = ''Here is the analysis. '' @ start_delimiter @ full_json @ end_delimiter"


definition empty_object_reply :: string where
  "empty_object_reply = start_delimiter @ ''{}'' @ end_delimiter"

definition keyless_urgency_reply :: string where
  "keyless_urgency_reply = start_delimiter @ keyless_urgency_json @ end_delimiter"


definition sample_result :: jsval where
  "sample_result =
     JObj [(''analysis'',
              JObj [(''intent'', JStr ''issue''), (''entities'', empty_entities),
                    (''messageId'', JStr ''msg_1'')]),
           (''classification'',
              JObj [(''urgency'', JStr ''high''), (''action'', JStr ''escalate''),
                    (''confidence'', JNum (9 / 10))])]"

definition partial_result :: jsval where
  "partial_result =
     JObj [(''analysis'', JObj [(''messageId'', JStr ''msg_1'')]),
           (''classification'',
              JObj [(''urgency'', JStr ''high''), (''action'', JStr ''escalate''),
                    (''confidence'', JNum (9 / 10))])]"

definition keyless_urgency_result :: jsval where
  "keyless_urgency_result =
     JObj [(''analysis'', JObj [(''intent'', JStr ''issue''), (''messageId'', JStr ''msg_1'')]),
           (''classification'',
              JObj [(''urgency'', JObj [(''toString'', JNum 1)]),
                    (''action'', JStr ''escalate'')])]"

definition keyless_intent_result :: jsval where
  "keyless_intent_result =
     JObj [(''analysis'',
              JObj [(''intent'', JObj [(''toString'', JNum 1)]), (''messageId'', JStr ''msg_1'')]),
           (''classification'',
              JObj [(''urgency'', JStr ''high''), (''action'', JStr ''escalate'')])]"

text \<open>\<open>JSON.parse\<close> on the texts above.\<close>

definition sample_parse :: "string \<Rightarrow> jsval option" where
  "sample_parse =
     map_of [(full_json, sample_result), (partial_json, partial_result), (''{}'', JObj []),
             (keyless_urgency_json, keyless_urgency_result),
             (keyless_intent_json, keyless_intent_result)]"

definition sample_env :: collaborators where
  "sample_env =
     \<lparr>clock = 1000,
      fresh_id = ''msg_1'',
      to_lower_case = ascii_lower,
      user_name_read = Inr (Some ''Ada''),
      user_tasks_read = Inr [],
      user_status_read = Inr None,
      client_ready = True,
      completion = Inr (Some sample_reply),
      parse_trimmed = sample_parse,
      send_outcome = (\<lambda>e. None),
      store_outcome = (\<lambda>c. None),
      experts_found = (\<lambda>v. Inr []),
      affected_users = (\<lambda>p. Inr []),
      analysis_reply = None\<rparr>"

definition sample_worker :: UserMessageProcessor where
  "sample_worker = \<lparr>agentId = ''gpt5mini_1'', processingQueue = [], isProcessing = False\<rparr>"

text \<open>
  Variants of the sample collaborators: a model client that times out, a reply in plain
  prose, an empty reply, a reply whose block parses to \<open>partial_result\<close> (no intent) or to
  an empty object, a reply whose urgency or intent is an object with a \<open>toString\<close>
  property, a store that fails the read of the user's name, and a store that refuses the
  update of the user's status.
\<close>

definition failing_worker_env :: collaborators where
  "failing_worker_env = sample_env\<lparr>completion := Inl (Failure ''request timed out'')\<rparr>"




definition empty_object_env :: collaborators where
  "empty_object_env = sample_env\<lparr>completion := Inr (Some empty_object_reply)\<rparr>"

definition keyless_urgency_env :: collaborators where
  "keyless_urgency_env = sample_env\<lparr>completion := Inr (Some keyless_urgency_reply)\<rparr>"



definition store_refusing_env :: manager_collaborators where
  "store_refusing_env =
     sample_manager_env\<lparr>user_update_outcome := (\<lambda>u. Some (Failure ''store unavailable''))\<rparr>"

text \<open>
  A \<open>toLowerCase\<close> that knows one character beyond ASCII: the Kelvin sign, U+212A, whose
  UTF-8 form is the bytes E2 84 AA and whose small letter is k. \<open>kelvin_env\<close> has it, and a
  model client that times out.
\<close>

definition kelvin_sign :: string where
  "kelvin_sign = [CHR 0xE2, CHR 0x84, CHR 0xAA]"

fun kelvin_lower :: "string \<Rightarrow> string" where
  "kelvin_lower (a # b # c # s) =
     (if [a, b, c] = kelvin_sign then CHR ''k'' # kelvin_lower s
      else lower_char a # kelvin_lower (b # c # s))"
| "kelvin_lower s = map lower_char s"

definition kelvin_env :: collaborators where
  "kelvin_env = failing_worker_env\<lparr>to_lower_case := kelvin_lower\<rparr>"

definition sample_message :: UserMessage where
  "sample_message =
     \<lparr>um_id = ''msg_1'', um_userId = ''u1'', um_userName = ''Ada'',
      um_content = ''the build is broken, please help'', um_incoming = [],
      um_currentTasks = [], um_userStatus = ''active'', um_timestamp = 1000,
      um_status = ''pending''\<rparr>"

definition sample_hub :: UserCommunicationHub where
  "sample_hub =
     \<lparr>processor1 = \<lparr>agentId = ''gpt5mini_1'', processingQueue = [], isProcessing = False\<rparr>,
      processor2 = \<lparr>agentId = ''gpt5mini_2'', processingQueue = [], isProcessing = False\<rparr>,
      messageQueue = emptyQueue,
      activeConnections = [''u1'']\<rparr>"

text \<open>
  A hub with two queued messages: \<open>sample_message\<close> at priority 3 and, enqueued after it,
  \<open>second_message\<close> at priority 1.
\<close>

definition second_message :: UserMessage where
  "second_message = sample_message\<lparr>um_id := ''msg_2''\<rparr>"

definition queued_hub :: UserCommunicationHub where
  "queued_hub =
     sample_hub\<lparr>messageQueue :=
       snd (run_calls emptyQueue [Enqueue sample_message 3, Enqueue second_message 1])\<rparr>"

section \<open>Proofs: the priority queue\<close>

lemma goes_before_irrefl: "\<not> goes_before a a"
  by (simp add: goes_before_def)

lemma goes_before_neg_trans:
  "\<not> goes_before a b \<Longrightarrow> \<not> goes_before b c \<Longrightarrow> \<not> goes_before a c"
  by (auto simp: goes_before_def)

lemma goes_before_total:
  "q_sequence a \<noteq> q_sequence b \<Longrightarrow> \<not> goes_before a b \<Longrightarrow> goes_before b a"
  by (auto simp: goes_before_def)

lemma front_entry_mem: "front_entry b es \<in> set (b # es)"
  by (induction es arbitrary: b) (auto split: if_splits)

lemma front_entry_least: "x \<in> set (b # es) \<Longrightarrow> \<not> goes_before x (front_entry b es)"
proof (induction es arbitrary: b x)
  case Nil
  then show ?case by (simp add: goes_before_irrefl)
next
  case (Cons e es)
  let ?nb = "if goes_before e b then e else b"
  have nb: "\<not> goes_before b ?nb" "\<not> goes_before e ?nb"
    by (auto simp: goes_before_irrefl goes_before_def)
  have r: "\<not> goes_before ?nb (front_entry ?nb es)"
    using Cons.IH [of ?nb ?nb] by simp
  show ?case
  proof (cases "x \<in> set es")
    case True
    then show ?thesis using Cons.IH [of x ?nb] by simp
  next
    case False
    with Cons.prems have "x = b \<or> x = e" by auto
    then have "\<not> goes_before x ?nb" using nb by blast
    then have "\<not> goes_before x (front_entry ?nb es)"
      using r goes_before_neg_trans by blast
    then show ?thesis by simp
  qed
qed

lemma filter_sequence_remove1:
  "distinct (map q_sequence es) \<Longrightarrow> m \<in> set es \<Longrightarrow>
   filter (\<lambda>x. q_sequence x \<noteq> q_sequence m) es = remove1 m es"
proof (induction es)
  case Nil
  then show ?case by simp
next
  case (Cons e es)
  show ?case
  proof (cases "e = m")
    case True
    have "\<forall>x\<in>set es. q_sequence x \<noteq> q_sequence m"
      using Cons.prems(1) True by (auto simp: image_iff)
    then have "filter (\<lambda>x. q_sequence x \<noteq> q_sequence m) es = es"
      by (simp add: filter_id_conv)
    with True show ?thesis by simp
  next
    case False
    with Cons.prems have m: "m \<in> set es" by simp
    have "q_sequence e \<noteq> q_sequence m"
      using Cons.prems(1) m by (auto simp: image_iff)
    with Cons False m show ?thesis by simp
  qed
qed

lemma queue_inv_distinct: "queue_inv q \<Longrightarrow> distinct (map q_sequence (entries q))"
  by (simp add: queue_inv_def strict_sorted_iff)

lemma queue_inv_empty: "queue_inv emptyQueue"
  by (simp add: queue_inv_def emptyQueue_def)

lemma queue_inv_enqueue: "queue_inv q \<Longrightarrow> queue_inv (enqueue q x p)"
  by (auto simp: queue_inv_def enqueue_def sorted_wrt_append list_all_iff intro: less_SucI)

lemma sorted_sequence_filter:
  "sorted_wrt (<) (map q_sequence es) \<Longrightarrow> sorted_wrt (<) (map q_sequence (filter P es))"
  by (induction es) auto

lemma queue_inv_dequeue: "queue_inv q \<Longrightarrow> queue_inv (snd (dequeue q))"
  unfolding queue_inv_def dequeue_def
  by (cases "entries q") (simp_all add: Let_def list_all_iff sorted_sequence_filter)

lemma queue_inv_run_calls: "queue_inv q \<Longrightarrow> queue_inv (snd (run_calls q cs))"
proof (induction q cs rule: run_calls.induct)
  case (1 q)
  then show ?case by simp
next
  case (2 q x p cs)
  then show ?case by (simp add: queue_inv_enqueue)
next
  case (3 q cs)
  have "queue_inv (snd (dequeue q))" using "3.prems" by (rule queue_inv_dequeue)
  then show ?case using "3.IH" [of "dequeue q" "fst (dequeue q)" "snd (dequeue q)"]
    by (simp add: case_prod_beta)
qed

lemma run_calls_append:
  "run_calls q (cs @ ds) =
     (fst (run_calls q cs) @ fst (run_calls (snd (run_calls q cs)) ds),
      snd (run_calls (snd (run_calls q cs)) ds))"
proof (induction cs arbitrary: q)
  case Nil
  then show ?case by simp
next
  case (Cons c cs)
  show ?case
  proof (cases c)
    case (Enqueue x p)
    then show ?thesis using Cons [of "enqueue q x p"] by simp
  next
    case Dequeue
    then show ?thesis using Cons [of "snd (dequeue q)"] by (simp add: case_prod_beta)
  qed
qed

lemma dequeue_nonempty:
  assumes "queue_inv q" "entries q \<noteq> []"
  shows "\<exists>m\<in>set (entries q).
           (\<forall>e\<in>set (entries q). e \<noteq> m \<longrightarrow> goes_before m e) \<and>
           dequeue q = (Some (q_item m), q\<lparr>entries := remove1 m (entries q)\<rparr>)"
proof -
  from assms(2) obtain e es where es: "entries q = e # es" by (cases "entries q") auto
  define m where "m = front_entry e es"
  have mem: "m \<in> set (entries q)" using front_entry_mem [of e es] by (simp add: m_def es)
  have d: "distinct (map q_sequence (entries q))" using assms(1) by (rule queue_inv_distinct)
  have least: "goes_before m x" if "x \<in> set (entries q)" "x \<noteq> m" for x
  proof -
    have "\<not> goes_before x m" using front_entry_least [of x e es] that(1) by (simp add: m_def es)
    moreover have "q_sequence x \<noteq> q_sequence m"
      using d mem that by (metis distinct_map inj_onD)
    ultimately show ?thesis using goes_before_total by blast
  qed
  have "dequeue q = (Some (q_item m), q\<lparr>entries := remove1 m (entries q)\<rparr>)"
    using filter_sequence_remove1 [OF d mem] by (simp add: dequeue_def es m_def Let_def)
  with mem least show ?thesis by blast
qed

lemma dequeue_empty: "entries q = [] \<Longrightarrow> dequeue q = (None, q)"
  by (simp add: dequeue_def)

lemma nextSequence_dequeue: "nextSequence (snd (dequeue q)) = nextSequence q"
  by (simp add: dequeue_def Let_def split: list.splits)

lemma nextSequence_run_calls:
  "nextSequence (snd (run_calls q cs)) = nextSequence q + length (filter is_Enqueue cs)"
proof (induction cs arbitrary: q)
  case Nil
  then show ?case by simp
next
  case (Cons c cs)
  show ?case
  proof (cases c)
    case (Enqueue x p)
    then show ?thesis using Cons [of "enqueue q x p"] by (simp add: enqueue_def)
  next
    case Dequeue
    then show ?thesis using Cons [of "snd (dequeue q)"]
      by (simp add: case_prod_beta nextSequence_dequeue)
  qed
qed

text \<open>
  Claim C1. Take any interleaving \<open>calls\<close> of enqueue and dequeue calls on a fresh queue,
  with the dequeue results \<open>outs\<close> and the queue \<open>q\<close> it leaves; the entries of \<open>q\<close> are
  the ones enqueued and not yet dequeued. A further dequeue on an empty \<open>q\<close> gives the
  empty result and changes nothing. On a non-empty \<open>q\<close> it gives the item of a stored
  entry \<open>m\<close> such that every other stored entry has a higher priority value, or the same
  priority and a higher sequence number, and it removes exactly \<open>m\<close>. A further enqueue
  stores the item under the next sequence number, the number of enqueues made before.
  After enqueuing A@3, B@1, C@2, B2@1 the dequeues give B, B2, C, A and then the empty
  result.
\<close>

theorem dequeue_serves_lowest_priority_then_fifo:
  "run_calls emptyQueue calls = (outs, q) \<Longrightarrow>
     (isEmpty q \<longrightarrow> run_calls emptyQueue (calls @ [Dequeue]) = (outs @ [None], q)) \<and>
     (\<not> isEmpty q \<longrightarrow>
        (\<exists>m\<in>set (entries q).
           (\<forall>e\<in>set (entries q). e \<noteq> m \<longrightarrow>
              q_priority m < q_priority e \<or>
              (q_priority m = q_priority e \<and> q_sequence m < q_sequence e)) \<and>
           run_calls emptyQueue (calls @ [Dequeue]) =
             (outs @ [Some (q_item m)], q\<lparr>entries := remove1 m (entries q)\<rparr>))) \<and>
     run_calls emptyQueue (calls @ [Enqueue x p]) =
       (outs, q\<lparr>entries := entries q @
                  [\<lparr>q_item = x, q_priority = p,
                    q_sequence = length (filter is_Enqueue calls)\<rparr>],
                nextSequence := Suc (length (filter is_Enqueue calls))\<rparr>) \<and>
     fst (run_calls emptyQueue
        [Enqueue ''A'' 3, Enqueue ''B'' 1, Enqueue ''C'' 2, Enqueue ''B2'' 1,
         Dequeue, Dequeue, Dequeue, Dequeue, Dequeue]) =
      [Some ''B'', Some ''B2'', Some ''C'', Some ''A'', None]"
proof -
  assume run: "run_calls emptyQueue calls = (outs, q)"
  have inv: "queue_inv q"
    using queue_inv_run_calls [OF queue_inv_empty, of calls] run by simp
  have nxt: "nextSequence q = length (filter is_Enqueue calls)"
    using nextSequence_run_calls [of emptyQueue calls] run by (simp add: emptyQueue_def)
  have app: "run_calls emptyQueue (calls @ cs) = (outs @ fst (run_calls q cs), snd (run_calls q cs))"
    for cs using run by (simp add: run_calls_append)
  have empty: "isEmpty q \<longrightarrow> run_calls emptyQueue (calls @ [Dequeue]) = (outs @ [None], q)"
    by (simp add: app isEmpty_def dequeue_empty)
  have front: "\<not> isEmpty q \<longrightarrow>
        (\<exists>m\<in>set (entries q).
           (\<forall>e\<in>set (entries q). e \<noteq> m \<longrightarrow>
              q_priority m < q_priority e \<or>
              (q_priority m = q_priority e \<and> q_sequence m < q_sequence e)) \<and>
           run_calls emptyQueue (calls @ [Dequeue]) =
             (outs @ [Some (q_item m)], q\<lparr>entries := remove1 m (entries q)\<rparr>))"
  proof
    assume "\<not> isEmpty q"
    then have "entries q \<noteq> []" by (simp add: isEmpty_def)
    from dequeue_nonempty [OF inv this] obtain m where m: "m \<in> set (entries q)"
      "\<forall>e\<in>set (entries q). e \<noteq> m \<longrightarrow> goes_before m e"
      "dequeue q = (Some (q_item m), q\<lparr>entries := remove1 m (entries q)\<rparr>)"
      by blast
    have "run_calls emptyQueue (calls @ [Dequeue]) =
             (outs @ [Some (q_item m)], q\<lparr>entries := remove1 m (entries q)\<rparr>)"
      by (simp add: app m(3))
    with m(1,2) show "\<exists>m\<in>set (entries q).
           (\<forall>e\<in>set (entries q). e \<noteq> m \<longrightarrow>
              q_priority m < q_priority e \<or>
              (q_priority m = q_priority e \<and> q_sequence m < q_sequence e)) \<and>
           run_calls emptyQueue (calls @ [Dequeue]) =
             (outs @ [Some (q_item m)], q\<lparr>entries := remove1 m (entries q)\<rparr>)"
      unfolding goes_before_def by blast
  qed
  have enq: "run_calls emptyQueue (calls @ [Enqueue x p]) =
       (outs, q\<lparr>entries := entries q @
                  [\<lparr>q_item = x, q_priority = p,
                    q_sequence = length (filter is_Enqueue calls)\<rparr>],
                nextSequence := Suc (length (filter is_Enqueue calls))\<rparr>)"
    by (simp add: app enqueue_def nxt)
  have ex: "fst (run_calls emptyQueue
        [Enqueue ''A'' 3, Enqueue ''B'' 1, Enqueue ''C'' 2, Enqueue ''B2'' 1,
         Dequeue, Dequeue, Dequeue, Dequeue, Dequeue]) =
      [Some ''B'', Some ''B2'', Some ''C'', Some ''A'', None]"
    by (simp add: emptyQueue_def enqueue_def dequeue_def goes_before_def Let_def)
  from empty front enq ex show ?thesis by blast
qed

theorem dequeue_serves_lowest_priority_then_fifo_witness:
  "run_calls emptyQueue [Enqueue ''A'' 3, Enqueue ''B'' 1, Enqueue ''C'' 1, Dequeue] =
     ([Some ''B''],
      \<lparr>entries = [\<lparr>q_item = ''A'', q_priority = 3, q_sequence = 0\<rparr>,
                  \<lparr>q_item = ''C'', q_priority = 1, q_sequence = 2\<rparr>],
       nextSequence = 3\<rparr>) \<and>
   (\<exists>m\<in>set [\<lparr>q_item = ''A'', q_priority = 3, q_sequence = 0\<rparr>,
                \<lparr>q_item = ''C'', q_priority = 1, q_sequence = 2\<rparr>].
      run_calls emptyQueue
        ([Enqueue ''A'' 3, Enqueue ''B'' 1, Enqueue ''C'' 1, Dequeue] @ [Dequeue]) =
      ([Some ''B''] @ [Some (q_item m)],
       \<lparr>entries = remove1 m [\<lparr>q_item = ''A'', q_priority = 3, q_sequence = 0\<rparr>,
                  \<lparr>q_item = ''C'', q_priority = 1, q_sequence = 2\<rparr>],
        nextSequence = 3\<rparr>))"
proof -
  let ?q = "\<lparr>entries = [\<lparr>q_item = ''A'', q_priority = 3, q_sequence = 0\<rparr>,
                  \<lparr>q_item = ''C'', q_priority = 1, q_sequence = 2\<rparr>],
       nextSequence = 3\<rparr>"
  have h: "run_calls emptyQueue [Enqueue ''A'' 3, Enqueue ''B'' 1, Enqueue ''C'' 1, Dequeue] =
     ([Some ''B''], ?q)"
    by (simp add: emptyQueue_def enqueue_def dequeue_def goes_before_def Let_def)
  have ne: "\<not> isEmpty ?q" by (simp add: isEmpty_def)
  show ?thesis
    using h ne dequeue_serves_lowest_priority_then_fifo [OF h, of undefined undefined] by simp
qed

section \<open>Proofs: actions\<close>

lemma and_then_Inr_iff:
  "and_then m f s = (Inr y, s'') \<longleftrightarrow> (\<exists>x s'. m s = (Inr x, s') \<and> f x s' = (Inr y, s''))"
  by (auto simp: and_then_def split: prod.splits sum.splits)

lemma rethrow_id: "try_catch m (\<lambda>err. raise err) = m"
  by (rule ext) (simp add: try_catch_def raise_def split: prod.splits sum.splits)

lemma from_outcome_Inr_iff: "from_outcome r s = (Inr x, s') \<longleftrightarrow> r = None \<and> s' = s"
  by (auto simp: from_outcome_def split: option.splits)

lemma from_result_Inr_iff: "from_result r s = (Inr x, s') \<longleftrightarrow> r = Inr x \<and> s' = s"
  by (auto simp: from_result_def)

lemma record_event_Inr_iff:
  "record_event ev w = (Inr x, w') \<longleftrightarrow> w' = (fst w, snd w @ [ev])"
  by (auto simp: record_event_def)

lemma on_self_Inr_iff: "on_self g w = (Inr x, w') \<longleftrightarrow> w' = (g (fst w), snd w)"
  by (auto simp: on_self_def)

lemma succeed_Inr_iff: "succeed x s = (Inr y, s') \<longleftrightarrow> y = x \<and> s' = s"
  by (auto simp: succeed_def)

section \<open>Proofs: worker selection\<close>

text \<open>
  Claim C2, as amended. For every pair of worker states, \<open>getAvailableProcessor\<close> never
  gives a busy worker while the other worker is available. Whenever at least one worker
  is available (not busy and fewer than 5 pending), the worker it gives is available, so
  it is not busy and has fewer than 5 pending; and when the other worker is available
  too, the one it gives has no more pending than the other. When neither worker is
  available it gives the second worker, whatever that worker's state. In full: with both
  workers available it gives the first when the first has no more pending than the
  second (so the first on a tie) and the second when the second has fewer; with one
  worker available it gives that one.
\<close>

theorem getAvailableProcessor_prefers_available:
  "(isProcessing (processor_of hub (getAvailableProcessor hub)) \<longrightarrow>
      \<not> isAvailable (processor_of hub (other_ref (getAvailableProcessor hub)))) \<and>
   (isAvailable (processor1 hub) \<or> isAvailable (processor2 hub) \<longrightarrow>
      \<not> isProcessing (processor_of hub (getAvailableProcessor hub)) \<and>
      queueSize (processor_of hub (getAvailableProcessor hub)) < 5 \<and>
      (isAvailable (processor_of hub (other_ref (getAvailableProcessor hub))) \<longrightarrow>
         queueSize (processor_of hub (getAvailableProcessor hub))
           \<le> queueSize (processor_of hub (other_ref (getAvailableProcessor hub))))) \<and>
   (\<not> isAvailable (processor1 hub) \<and> \<not> isAvailable (processor2 hub) \<longrightarrow>
      getAvailableProcessor hub = Processor2) \<and>
   (isAvailable (processor1 hub) \<and> isAvailable (processor2 hub) \<and>
    queueSize (processor1 hub) \<le> queueSize (processor2 hub) \<longrightarrow>
      getAvailableProcessor hub = Processor1) \<and>
   (isAvailable (processor1 hub) \<and> isAvailable (processor2 hub) \<and>
    queueSize (processor2 hub) < queueSize (processor1 hub) \<longrightarrow>
      getAvailableProcessor hub = Processor2) \<and>
   (isAvailable (processor1 hub) \<and> \<not> isAvailable (processor2 hub) \<longrightarrow>
      getAvailableProcessor hub = Processor1) \<and>
   (\<not> isAvailable (processor1 hub) \<and> isAvailable (processor2 hub) \<longrightarrow>
      getAvailableProcessor hub = Processor2)"
  by (auto simp: getAvailableProcessor_def isAvailable_def queueSize_def)

text \<open>
  The theorem at four hubs: with both workers available and 2 and 1 pending it forces the
  second worker; on a tie, with 1 pending each, the first; with only the first worker
  available, the first; with both workers busy, the second.
\<close>

theorem getAvailableProcessor_prefers_available_witness:
  "getAvailableProcessor
     \<lparr>processor1 = \<lparr>agentId = ''gpt5mini_1'', processingQueue = [''a'', ''b''], isProcessing = False\<rparr>,
      processor2 = \<lparr>agentId = ''gpt5mini_2'', processingQueue = [''c''], isProcessing = False\<rparr>,
      messageQueue = emptyQueue, activeConnections = []\<rparr> = Processor2 \<and>
   getAvailableProcessor
     \<lparr>processor1 = \<lparr>agentId = ''gpt5mini_1'', processingQueue = [''a''], isProcessing = False\<rparr>,
      processor2 = \<lparr>agentId = ''gpt5mini_2'', processingQueue = [''c''], isProcessing = False\<rparr>,
      messageQueue = emptyQueue, activeConnections = []\<rparr> = Processor1 \<and>
   getAvailableProcessor
     \<lparr>processor1 = \<lparr>agentId = ''gpt5mini_1'', processingQueue = [''a''], isProcessing = False\<rparr>,
      processor2 = \<lparr>agentId = ''gpt5mini_2'', processingQueue = [], isProcessing = True\<rparr>,
      messageQueue = emptyQueue, activeConnections = []\<rparr> = Processor1 \<and>
   getAvailableProcessor
     \<lparr>processor1 = \<lparr>agentId = ''gpt5mini_1'', processingQueue = [], isProcessing = True\<rparr>,
      processor2 = \<lparr>agentId = ''gpt5mini_2'', processingQueue = [], isProcessing = True\<rparr>,
      messageQueue = emptyQueue, activeConnections = []\<rparr> = Processor2"
proof -
  let ?h1 = "\<lparr>processor1 = \<lparr>agentId = ''gpt5mini_1'', processingQueue = [''a'', ''b''], isProcessing = False\<rparr>,
      processor2 = \<lparr>agentId = ''gpt5mini_2'', processingQueue = [''c''], isProcessing = False\<rparr>,
      messageQueue = emptyQueue, activeConnections = []\<rparr>"
  let ?h2 = "\<lparr>processor1 = \<lparr>agentId = ''gpt5mini_1'', processingQueue = [''a''], isProcessing = False\<rparr>,
      processor2 = \<lparr>agentId = ''gpt5mini_2'', processingQueue = [''c''], isProcessing = False\<rparr>,
      messageQueue = emptyQueue, activeConnections = []\<rparr>"
  let ?h3 = "\<lparr>processor1 = \<lparr>agentId = ''gpt5mini_1'', processingQueue = [''a''], isProcessing = False\<rparr>,
      processor2 = \<lparr>agentId = ''gpt5mini_2'', processingQueue = [], isProcessing = True\<rparr>,
      messageQueue = emptyQueue, activeConnections = []\<rparr>"
  let ?h4 = "\<lparr>processor1 = \<lparr>agentId = ''gpt5mini_1'', processingQueue = [], isProcessing = True\<rparr>,
      processor2 = \<lparr>agentId = ''gpt5mini_2'', processingQueue = [], isProcessing = True\<rparr>,
      messageQueue = emptyQueue, activeConnections = []\<rparr>"
  have a1: "isAvailable (processor1 ?h1)" "isAvailable (processor2 ?h1)"
    by (simp_all add: isAvailable_def)
  have q1: "queueSize (processor2 ?h1) < queueSize (processor1 ?h1)"
    by (simp add: queueSize_def)
  have a2: "isAvailable (processor1 ?h2)" "isAvailable (processor2 ?h2)"
    by (simp_all add: isAvailable_def)
  have q2: "queueSize (processor1 ?h2) \<le> queueSize (processor2 ?h2)"
    by (simp add: queueSize_def)
  have a3: "isAvailable (processor1 ?h3)" "\<not> isAvailable (processor2 ?h3)"
    by (simp_all add: isAvailable_def)
  have a4: "\<not> isAvailable (processor1 ?h4)" "\<not> isAvailable (processor2 ?h4)"
    by (simp_all add: isAvailable_def)
  from getAvailableProcessor_prefers_available [of ?h1] a1 q1
  have "getAvailableProcessor ?h1 = Processor2" by blast
  moreover from getAvailableProcessor_prefers_available [of ?h2] a2 q2
  have "getAvailableProcessor ?h2 = Processor1" by blast
  moreover from getAvailableProcessor_prefers_available [of ?h3] a3
  have "getAvailableProcessor ?h3 = Processor1" by blast
  moreover from getAvailableProcessor_prefers_available [of ?h4] a4
  have "getAvailableProcessor ?h4 = Processor2" by blast
  ultimately show ?thesis by simp
qed

text \<open>
  The claim as stated fails: with the first worker busy and the second idle with 5
  pending, the second worker is given, and its pending count is 5.
\<close>

theorem getAvailableProcessor_full_worker_counterexample:
  "getAvailableProcessor
     \<lparr>processor1 = \<lparr>agentId = ''gpt5mini_1'', processingQueue = [], isProcessing = True\<rparr>,
      processor2 = \<lparr>agentId = ''gpt5mini_2'',
                    processingQueue = [''m1'', ''m2'', ''m3'', ''m4'', ''m5''],
                    isProcessing = False\<rparr>,
      messageQueue = emptyQueue, activeConnections = []\<rparr> = Processor2 \<and>
   queueSize \<lparr>agentId = ''gpt5mini_2'',
                    processingQueue = [''m1'', ''m2'', ''m3'', ''m4'', ''m5''],
                    isProcessing = False\<rparr> = 5"
  by (simp add: getAvailableProcessor_def isAvailable_def queueSize_def)

section \<open>Proofs: the router\<close>

lemma runs_of_append: "runs_of i (xs @ ys) = runs_of i xs + runs_of i ys"
  by (simp add: runs_of_def)

lemma runs_of_dispatch:
  "runs_of i (dispatch k hs e) =
     (if k \<le> i \<and> i < k + length hs \<and> fst (hs ! (i - k)) = e_type e then 1 else 0)"
proof (induction hs arbitrary: k)
  case Nil
  then show ?case by (simp add: runs_of_def)
next
  case (Cons h hs)
  obtain t f where h: "h = (t, f)" by (cases h)
  have head: "runs_of i
       (if t = e_type e
        then Invoked k e # (case f e of Some err \<Rightarrow> [DeliveryError k err] | None \<Rightarrow> [])
        else []) = (if t = e_type e \<and> i = k then 1 else 0)"
    by (simp add: runs_of_def split: option.splits)
  show ?case
  proof (cases "i = k")
    case True
    then show ?thesis using Cons [of "Suc k"] head by (simp add: h runs_of_append)
  next
    case False
    then have "runs_of i (dispatch k (h # hs) e) = runs_of i (dispatch (Suc k) hs e)"
      using head by (simp add: h runs_of_append)
    also have "\<dots> = (if Suc k \<le> i \<and> i < Suc k + length hs \<and> fst (hs ! (i - Suc k)) = e_type e
                       then 1 else 0)"
      by (rule Cons)
    also have "\<dots> = (if k \<le> i \<and> i < k + length (h # hs) \<and> fst ((h # hs) ! (i - k)) = e_type e
                       then 1 else 0)"
    proof (cases "k < i")
      case True
      then obtain d where "i - k = Suc d" "i - Suc k = d" by (cases "i - k") auto
      with True show ?thesis by auto
    next
      case False
      with \<open>i \<noteq> k\<close> show ?thesis by auto
    qed
    finally show ?thesis .
  qed
qed

text \<open>
  Claim C4. Whatever handlers are registered and whichever of them raise, \<open>sendMessage\<close>
  returns normally, leaves the registrations as they are, and runs every handler
  registered for the envelope's type exactly once and no other handler.
\<close>

theorem sendMessage_runs_every_handler_once:
  "sendMessage e w = (r, w') \<Longrightarrow>
     r = Inr () \<and> fst w' = fst w \<and>
     (\<exists>new. snd w' = snd w @ new \<and>
        (\<forall>i<length (handlers (fst w)).
           runs_of i new = (if fst (handlers (fst w) ! i) = e_type e then 1 else 0)))"
proof -
  assume "sendMessage e w = (r, w')"
  then have r: "r = Inr ()" and w': "w' = (fst w, snd w @ dispatch 0 (handlers (fst w)) e)"
    by (simp_all add: sendMessage_def)
  have "\<forall>i<length (handlers (fst w)).
           runs_of i (dispatch 0 (handlers (fst w)) e) =
             (if fst (handlers (fst w) ! i) = e_type e then 1 else 0)"
    by (simp add: runs_of_dispatch)
  with r w' show ?thesis by simp
qed

text \<open>
  The theorem with two handlers registered for type X, of which the first raises: both
  ran once, and \<open>sendMessage\<close> returned normally.
\<close>

theorem sendMessage_runs_every_handler_once_witness:
  "fst (sendMessage
          \<lparr>e_type = ''X'', e_source = ''a'', e_target = ''b'', e_payload = UserDeparted ''u1'',
           e_priority = JNum 3, e_timestamp = 0, e_correlationId = JUndefined\<rparr>
          (registerHandler ''X'' (\<lambda>e. None)
             (registerHandler ''X'' (\<lambda>e. Some (Failure ''boom'')) \<lparr>handlers = []\<rparr>), [])) = Inr () \<and>
   (\<exists>new. snd (snd (sendMessage
          \<lparr>e_type = ''X'', e_source = ''a'', e_target = ''b'', e_payload = UserDeparted ''u1'',
           e_priority = JNum 3, e_timestamp = 0, e_correlationId = JUndefined\<rparr>
          (registerHandler ''X'' (\<lambda>e. None)
             (registerHandler ''X'' (\<lambda>e. Some (Failure ''boom'')) \<lparr>handlers = []\<rparr>), []))) = new \<and>
      runs_of 0 new = 1 \<and> runs_of 1 new = 1)"
proof -
  let ?e = "\<lparr>e_type = ''X'', e_source = ''a'', e_target = ''b'', e_payload = UserDeparted ''u1'',
           e_priority = JNum 3, e_timestamp = 0, e_correlationId = JUndefined\<rparr>"
  let ?router = "registerHandler ''X'' (\<lambda>e. None)
             (registerHandler ''X'' (\<lambda>e. Some (Failure ''boom'')) \<lparr>handlers = []\<rparr>)"
  obtain r w' where run: "sendMessage ?e (?router, []) = (r, w')"
    by (cases "sendMessage ?e (?router, [])")
  have len: "length (handlers ?router) = 2" by (simp add: registerHandler_def)
  have types: "fst (handlers ?router ! 0) = e_type ?e" "fst (handlers ?router ! 1) = e_type ?e"
    by (simp_all add: registerHandler_def)
  from sendMessage_runs_every_handler_once [OF run] obtain new where
    r: "r = Inr ()" and new: "snd w' = new"
    and once: "\<forall>i<length (handlers ?router).
                 runs_of i new = (if fst (handlers ?router ! i) = e_type ?e then 1 else 0)"
    by auto
  from once len types have "runs_of 0 new = 1" "runs_of 1 new = 1"
    by (metis One_nat_def lessI less_Suc_eq numeral_2_eq_2 zero_less_Suc)+
  with r new run show ?thesis by simp
qed

section \<open>Proofs: the agent registry\<close>

lemma construct_agent_Inr_iff:
  "construct_agent env key a w = (Inr x, w') \<longleftrightarrow>
     construct_outcome env a = None \<and>
     w' = ((fst w)\<lparr>agents := map_set key a (agents (fst w))\<rparr>, snd w @ [Constructed a])"
  by (auto simp: construct_agent_def and_then_Inr_iff from_outcome_Inr_iff record_event_Inr_iff
      on_self_Inr_iff)

lemma construct_user_compilers_Inr:
  "construct_user_compilers env users w = (Inr x, w') \<Longrightarrow>
     snd w' = snd w @ map (\<lambda>u. Constructed (UserCompiler u)) users \<and>
     initialized (fst w') = initialized (fst w)"
proof (induction users arbitrary: w)
  case Nil
  then show ?case by (simp add: succeed_Inr_iff)
next
  case (Cons u users)
  from Cons.prems obtain w1 where
    1: "construct_agent env (''user_compiler_'' @ u) (UserCompiler u) w = (Inr (), w1)"
    and 2: "construct_user_compilers env users w1 = (Inr x, w')"
    by (auto simp: and_then_Inr_iff)
  from 1 have "snd w1 = snd w @ [Constructed (UserCompiler u)]"
    "initialized (fst w1) = initialized (fst w)"
    by (simp_all add: construct_agent_Inr_iff)
  with Cons.IH [OF 2] show ?case by simp
qed

lemma initializeAgents_Inr:
  assumes "initializeAgents env w = (Inr x, w')"
  shows "\<exists>users. users_read env = Inr users \<and>
     snd w' = snd w @
       [Constructed RoadmapOrchestrator, Constructed RepositoryScannerManager,
        Constructed ProgressCoordinator, Constructed DecisionEngine]
       @ map (\<lambda>u. Constructed (UserCompiler u)) users
       @ [Constructed CodeExtractor, Constructed EditCoordinator, Constructed CommunicationHub]"
proof -
  from assms obtain w4 w5 users where
    a: "snd w4 = snd w @
       [Constructed RoadmapOrchestrator, Constructed RepositoryScannerManager,
        Constructed ProgressCoordinator, Constructed DecisionEngine]"
    and u: "users_read env = Inr users"
    and b: "construct_user_compilers env users w4 = (Inr (), w5)"
    and c: "snd w' = snd w5 @
       [Constructed CodeExtractor, Constructed EditCoordinator, Constructed CommunicationHub]"
    by (auto simp: initializeAgents_def initializeUserCompilers_def rethrow_id and_then_Inr_iff
        construct_agent_Inr_iff from_result_Inr_iff)
  from construct_user_compilers_Inr [OF b] a c u show ?thesis by simp
qed

lemma initialize_all_Inr:
  assumes "initialize_all env w = (Inr x, w')"
  shows "initialized (fst w') \<and>
    (\<exists>users. users_read env = Inr users \<and>
     snd w' = snd w @
       [RouterInitialized, HealthMonitorInitialized, TokenManagerInitialized,
        Constructed RoadmapOrchestrator, Constructed RepositoryScannerManager,
        Constructed ProgressCoordinator, Constructed DecisionEngine]
       @ map (\<lambda>u. Constructed (UserCompiler u)) users
       @ [Constructed CodeExtractor, Constructed EditCoordinator, Constructed CommunicationHub,
          MonitoringStarted (map fst (agents (fst w'))),
          TrackingStarted (map fst (agents (fst w')))])"
proof -
  from assms obtain w3 w4 where
    a: "snd w3 = snd w @ [RouterInitialized, HealthMonitorInitialized, TokenManagerInitialized]"
    and b: "initializeAgents env w3 = (Inr (), w4)"
    and c: "w' = ((fst w4)\<lparr>initialized := True\<rparr>,
              snd w4 @ [MonitoringStarted (map fst (agents (fst w4))),
                        TrackingStarted (map fst (agents (fst w4)))])"
    by (auto simp: initialize_all_def and_then_Inr_iff from_outcome_Inr_iff record_event_Inr_iff
        on_self_Inr_iff)
  from initializeAgents_Inr [OF b] a c show ?thesis by auto
qed

text \<open>
  Claim C5. After a call of \<open>initialize\<close> that returned normally the manager is
  initialised, and a second call, whatever its collaborators would answer, returns
  normally and changes neither the registry nor the log: it initialises no core service
  and constructs no agent. If the manager was not initialised before the first call, that
  call initialised each of the three core services once and constructed each agent once,
  in the order of the source.
\<close>

theorem initialize_twice_is_initialize_once:
  "initialize env w = (Inr (), w1) \<Longrightarrow>
     initialized (fst w1) \<and>
     initialize env' w1 = (Inr (), w1) \<and>
     (\<not> initialized (fst w) \<longrightarrow>
        (\<exists>users. users_read env = Inr users \<and>
           snd w1 = snd w @
             [RouterInitialized, HealthMonitorInitialized, TokenManagerInitialized,
              Constructed RoadmapOrchestrator, Constructed RepositoryScannerManager,
              Constructed ProgressCoordinator, Constructed DecisionEngine]
             @ map (\<lambda>u. Constructed (UserCompiler u)) users
             @ [Constructed CodeExtractor, Constructed EditCoordinator,
                Constructed CommunicationHub,
                MonitoringStarted (map fst (agents (fst w1))),
                TrackingStarted (map fst (agents (fst w1)))]))"
proof -
  assume ok: "initialize env w = (Inr (), w1)"
  have first: "initialized (fst w1) \<and>
     (\<not> initialized (fst w) \<longrightarrow>
        (\<exists>users. users_read env = Inr users \<and>
           snd w1 = snd w @
             [RouterInitialized, HealthMonitorInitialized, TokenManagerInitialized,
              Constructed RoadmapOrchestrator, Constructed RepositoryScannerManager,
              Constructed ProgressCoordinator, Constructed DecisionEngine]
             @ map (\<lambda>u. Constructed (UserCompiler u)) users
             @ [Constructed CodeExtractor, Constructed EditCoordinator,
                Constructed CommunicationHub,
                MonitoringStarted (map fst (agents (fst w1))),
                TrackingStarted (map fst (agents (fst w1)))]))"
  proof (cases "initialized (fst w)")
    case True
    with ok show ?thesis by (simp add: initialize_def succeed_Inr_iff)
  next
    case False
    with ok have "initialize_all env w = (Inr (), w1)"
      by (simp add: initialize_def rethrow_id)
    from initialize_all_Inr [OF this] show ?thesis by blast
  qed
  then have "initialize env' w1 = (Inr (), w1)"
    by (simp add: initialize_def succeed_def)
  with first show ?thesis by blast
qed

text \<open>The theorem on a fresh manager with one stored user.\<close>

theorem initialize_twice_is_initialize_once_witness:
  "initialize sample_manager_env (\<lparr>agents = [], initialized = False\<rparr>, []) =
     (Inr (), fst (snd (initialize sample_manager_env (\<lparr>agents = [], initialized = False\<rparr>, []))),
      [RouterInitialized, HealthMonitorInitialized, TokenManagerInitialized,
       Constructed RoadmapOrchestrator, Constructed RepositoryScannerManager,
       Constructed ProgressCoordinator, Constructed DecisionEngine,
       Constructed (UserCompiler ''u1''),
       Constructed CodeExtractor, Constructed EditCoordinator, Constructed CommunicationHub,
       MonitoringStarted
         [''roadmap_orchestrator'', ''repository_scanner_manager'', ''progress_coordinator'',
          ''decision_engine'', ''user_compiler_u1'', ''code_extractor'', ''edit_coordinator'',
          ''communication_hub''],
       TrackingStarted
         [''roadmap_orchestrator'', ''repository_scanner_manager'', ''progress_coordinator'',
          ''decision_engine'', ''user_compiler_u1'', ''code_extractor'', ''edit_coordinator'',
          ''communication_hub'']]) \<and>
   initialize sample_manager_env
     (snd (initialize sample_manager_env (\<lparr>agents = [], initialized = False\<rparr>, []))) =
     (Inr (), snd (initialize sample_manager_env (\<lparr>agents = [], initialized = False\<rparr>, [])))"
proof -
  let ?w = "(\<lparr>agents = [], initialized = False\<rparr>, [] :: manager_event list)"
  obtain w1 where first: "initialize sample_manager_env ?w = (Inr (), w1)"
    by (simp add: initialize_def initialize_all_def initializeAgents_def
        initializeUserCompilers_def construct_agent_def rethrow_id and_then_def from_outcome_def
        from_result_def record_event_def on_self_def succeed_def sample_manager_env_def)
  have users: "users_read sample_manager_env = Inr [''u1'']"
    by (simp add: sample_manager_env_def)
  have ids: "map fst (agents (fst w1)) =
         [''roadmap_orchestrator'', ''repository_scanner_manager'', ''progress_coordinator'',
          ''decision_engine'', ''user_compiler_u1'', ''code_extractor'', ''edit_coordinator'',
          ''communication_hub'']"
    using first
    by (simp add: initialize_def initialize_all_def initializeAgents_def
        initializeUserCompilers_def construct_agent_def rethrow_id and_then_def from_outcome_def
        from_result_def record_event_def on_self_def succeed_def sample_manager_env_def)
      auto
  from initialize_twice_is_initialize_once [OF first, of sample_manager_env] users ids first
  show ?thesis by (cases w1) auto
qed

lemma map_of_map_delete: "map_of (map_delete k m) k = None"
  by (induction m) (auto simp: map_delete_def)

lemma notify_departure_eq:
  "notify_departure env userId w =
     (case m_send_outcome env
             \<lparr>e_type = ''USER_DEPARTED'', e_source = ''agent_manager'',
              e_target = ''roadmap_orchestrator'', e_payload = UserDeparted userId,
              e_priority = JNum 1, e_timestamp = m_clock env, e_correlationId = JUndefined\<rparr> of
        Some err \<Rightarrow> (Inl err, w)
      | None \<Rightarrow>
          (Inr (), (fst w, snd w @
             [Sent \<lparr>e_type = ''USER_DEPARTED'', e_source = ''agent_manager'',
                    e_target = ''roadmap_orchestrator'', e_payload = UserDeparted userId,
                    e_priority = JNum 1, e_timestamp = m_clock env,
                    e_correlationId = JUndefined\<rparr>])))"
  by (simp add: notify_departure_def manager_send_def and_then_def from_outcome_def
      record_event_def split: option.splits)

lemma clean_up_compiler_eq:
  "map_of (agents (fst w)) (''user_compiler_'' @ userId) = Some a \<Longrightarrow>
   cleanup_hook env a = None \<or> cleanup_hook env a = Some None \<Longrightarrow>
   clean_up_compiler env userId w =
     (Inr (), ((fst w)\<lparr>agents := map_delete (''user_compiler_'' @ userId) (agents (fst w))\<rparr>,
               snd w @ (if cleanup_hook env a = Some None
                        then [CleanedUp (''user_compiler_'' @ userId)] else [])
               @ [Unregistered (''user_compiler_'' @ userId)]))"
  by (auto simp: clean_up_compiler_def and_then_def from_outcome_def record_event_def
      succeed_def on_self_def)

lemma update_user_status_eq:
  "update_user_status env userId w =
     (case user_update_outcome env userId of
        Some err \<Rightarrow> (Inl err, w)
      | None \<Rightarrow> (Inr (), (fst w, snd w @ [UserStatusUpdated userId])))"
  by (simp add: update_user_status_def and_then_def from_outcome_def record_event_def
      split: option.splits)

text \<open>
  Claim C6, as amended. For a registered per-user agent, when the departure notice is sent
  and the agent's \<open>cleanup\<close>, if it has one, returns, \<open>removeUser\<close> deletes the registry
  entry first and updates the stored user status afterwards: the log of the call is the
  notice, the cleanup if there is one, the deletion of the entry, and then the update,
  which is there only when it succeeded; no update precedes the deletion. The entry is
  deleted whether or not the update succeeds, and an error of the update reaches the
  caller with the entry already gone.
\<close>

theorem removeUser_deletes_entry_before_status_update:
  "map_of (agents mgr) (''user_compiler_'' @ userId) = Some a \<Longrightarrow>
   m_send_outcome env
     \<lparr>e_type = ''USER_DEPARTED'', e_source = ''agent_manager'',
      e_target = ''roadmap_orchestrator'', e_payload = UserDeparted userId,
      e_priority = JNum 1, e_timestamp = m_clock env, e_correlationId = JUndefined\<rparr> = None \<Longrightarrow>
   cleanup_hook env a = None \<or> cleanup_hook env a = Some None \<Longrightarrow>
   removeUser env userId (mgr, trail) =
     ((case user_update_outcome env userId of None \<Rightarrow> Inr () | Some err \<Rightarrow> Inl err),
      (mgr\<lparr>agents := map_delete (''user_compiler_'' @ userId) (agents mgr)\<rparr>,
       trail
       @ [Sent \<lparr>e_type = ''USER_DEPARTED'', e_source = ''agent_manager'',
                e_target = ''roadmap_orchestrator'', e_payload = UserDeparted userId,
                e_priority = JNum 1, e_timestamp = m_clock env,
                e_correlationId = JUndefined\<rparr>]
       @ (if cleanup_hook env a = Some None then [CleanedUp (''user_compiler_'' @ userId)] else [])
       @ [Unregistered (''user_compiler_'' @ userId)]
       @ (if user_update_outcome env userId = None then [UserStatusUpdated userId] else [])))
   \<and> getAgent (mgr\<lparr>agents := map_delete (''user_compiler_'' @ userId) (agents mgr)\<rparr>)
         (''user_compiler_'' @ userId) = None
   \<and> (\<exists>before after.
         snd (snd (removeUser env userId (mgr, trail))) =
           trail @ before @ [Unregistered (''user_compiler_'' @ userId)] @ after \<and>
         UserStatusUpdated userId \<notin> set before \<and>
         Unregistered (''user_compiler_'' @ userId) \<notin> set after)"
proof -
  assume reg: "map_of (agents mgr) (''user_compiler_'' @ userId) = Some a"
    and sent: "m_send_outcome env
     \<lparr>e_type = ''USER_DEPARTED'', e_source = ''agent_manager'',
      e_target = ''roadmap_orchestrator'', e_payload = UserDeparted userId,
      e_priority = JNum 1, e_timestamp = m_clock env, e_correlationId = JUndefined\<rparr> = None"
    and hook: "cleanup_hook env a = None \<or> cleanup_hook env a = Some None"
  let ?dep = "\<lparr>e_type = ''USER_DEPARTED'', e_source = ''agent_manager'',
      e_target = ''roadmap_orchestrator'', e_payload = UserDeparted userId,
      e_priority = JNum 1, e_timestamp = m_clock env, e_correlationId = JUndefined\<rparr>"
  have 1: "notify_departure env userId (mgr, trail) = (Inr (), (mgr, trail @ [Sent ?dep]))"
    by (simp add: notify_departure_eq sent)
  have 2: "clean_up_compiler env userId (mgr, trail @ [Sent ?dep]) =
     (Inr (), (mgr\<lparr>agents := map_delete (''user_compiler_'' @ userId) (agents mgr)\<rparr>,
               (trail @ [Sent ?dep]) @ (if cleanup_hook env a = Some None
                        then [CleanedUp (''user_compiler_'' @ userId)] else [])
               @ [Unregistered (''user_compiler_'' @ userId)]))"
    using clean_up_compiler_eq [of "(mgr, trail @ [Sent ?dep])" userId a env] reg hook by simp
  have "removeUser env userId (mgr, trail) =
     update_user_status env userId
       (mgr\<lparr>agents := map_delete (''user_compiler_'' @ userId) (agents mgr)\<rparr>,
        (trail @ [Sent ?dep]) @ (if cleanup_hook env a = Some None
                        then [CleanedUp (''user_compiler_'' @ userId)] else [])
        @ [Unregistered (''user_compiler_'' @ userId)])"
    by (simp only: removeUser_def and_then_def 1 2 prod.case sum.case)
  then have run: "removeUser env userId (mgr, trail) =
     ((case user_update_outcome env userId of None \<Rightarrow> Inr () | Some err \<Rightarrow> Inl err),
      (mgr\<lparr>agents := map_delete (''user_compiler_'' @ userId) (agents mgr)\<rparr>,
       trail @ [Sent ?dep]
       @ (if cleanup_hook env a = Some None then [CleanedUp (''user_compiler_'' @ userId)] else [])
       @ [Unregistered (''user_compiler_'' @ userId)]
       @ (if user_update_outcome env userId = None then [UserStatusUpdated userId] else [])))"
    by (simp add: update_user_status_eq split: option.splits)
  have order: "\<exists>before after.
         snd (snd (removeUser env userId (mgr, trail))) =
           trail @ before @ [Unregistered (''user_compiler_'' @ userId)] @ after \<and>
         UserStatusUpdated userId \<notin> set before \<and>
         Unregistered (''user_compiler_'' @ userId) \<notin> set after"
    unfolding run
    by (rule exI [of _ "[Sent ?dep]
          @ (if cleanup_hook env a = Some None then [CleanedUp (''user_compiler_'' @ userId)] else [])"],
        rule exI [of _ "if user_update_outcome env userId = None then [UserStatusUpdated userId] else []"])
       simp
  from run order show ?thesis
    by (simp add: getAgent_def map_of_map_delete)
qed

text \<open>
  The theorem on a registry of two agents, with collaborators that all succeed: the
  deletion is logged before the update.
\<close>

theorem removeUser_deletes_entry_before_status_update_witness:
  "removeUser sample_manager_env ''u1''
     (\<lparr>agents = [(''decision_engine'', DecisionEngine), (''user_compiler_u1'', UserCompiler ''u1'')],
       initialized = True\<rparr>, []) =
   (Inr (),
    (\<lparr>agents = [(''decision_engine'', DecisionEngine)], initialized = True\<rparr>,
     [Sent \<lparr>e_type = ''USER_DEPARTED'', e_source = ''agent_manager'',
            e_target = ''roadmap_orchestrator'', e_payload = UserDeparted ''u1'',
            e_priority = JNum 1, e_timestamp = 1000, e_correlationId = JUndefined\<rparr>,
      Unregistered ''user_compiler_u1'', UserStatusUpdated ''u1'']))"
proof -
  let ?mgr = "\<lparr>agents = [(''decision_engine'', DecisionEngine), (''user_compiler_u1'', UserCompiler ''u1'')],
       initialized = True\<rparr>"
  have reg: "map_of (agents ?mgr) (''user_compiler_'' @ ''u1'') = Some (UserCompiler ''u1'')"
    by simp
  have sent: "m_send_outcome sample_manager_env
     \<lparr>e_type = ''USER_DEPARTED'', e_source = ''agent_manager'',
      e_target = ''roadmap_orchestrator'', e_payload = UserDeparted ''u1'',
      e_priority = JNum 1, e_timestamp = m_clock sample_manager_env,
      e_correlationId = JUndefined\<rparr> = None"
    by (simp add: sample_manager_env_def)
  have hook: "cleanup_hook sample_manager_env (UserCompiler ''u1'') = None \<or>
              cleanup_hook sample_manager_env (UserCompiler ''u1'') = Some None"
    by (simp add: sample_manager_env_def)
  show ?thesis
    using removeUser_deletes_entry_before_status_update [OF reg sent hook, of "[]"]
    by (simp add: sample_manager_env_def map_delete_def)
qed

text \<open>
  The claim as stated fails: when the store refuses the update, \<open>removeUser\<close> has
  already dropped the registry entry (the deletion is the last entry of the log), and the
  stored status is not updated.
\<close>

theorem removeUser_status_update_counterexample:
  "removeUser store_refusing_env ''u1''
     (\<lparr>agents = [(''user_compiler_u1'', UserCompiler ''u1'')], initialized = True\<rparr>, []) =
   (Inl (Failure ''store unavailable''),
    (\<lparr>agents = [], initialized = True\<rparr>,
     [Sent \<lparr>e_type = ''USER_DEPARTED'', e_source = ''agent_manager'',
            e_target = ''roadmap_orchestrator'', e_payload = UserDeparted ''u1'',
            e_priority = JNum 1, e_timestamp = 1000, e_correlationId = JUndefined\<rparr>,
      Unregistered ''user_compiler_u1'']))"
  by (simp add: removeUser_def notify_departure_def clean_up_compiler_def update_user_status_def
      manager_send_def and_then_def from_outcome_def record_event_def succeed_def on_self_def
      store_refusing_env_def sample_manager_env_def map_delete_def)

section \<open>Proofs: strings\<close>

lemma starts_with_iff: "starts_with s k \<longleftrightarrow> (\<exists>post. s = k @ post)"
proof
  assume "starts_with s k"
  then have "s = k @ drop (length k) s"
    by (metis append_take_drop_id starts_with_def)
  then show "\<exists>post. s = k @ post" ..
next
  assume "\<exists>post. s = k @ post"
  then show "starts_with s k" by (auto simp: starts_with_def)
qed

lemma includes_str_iff: "includes_str s k \<longleftrightarrow> (\<exists>pre post. s = pre @ k @ post)"
proof (induction s)
  case Nil
  then show ?case by auto
next
  case (Cons c cs)
  show ?case
  proof
    assume "includes_str (c # cs) k"
    then consider "starts_with (c # cs) k" | "includes_str cs k" by auto
    then show "\<exists>pre post. c # cs = pre @ k @ post"
    proof cases
      case 1
      then obtain post where "c # cs = k @ post" by (auto simp: starts_with_iff)
      then have "c # cs = [] @ k @ post" by simp
      then show ?thesis by blast
    next
      case 2
      with Cons obtain pre post where "cs = pre @ k @ post" by blast
      then have "c # cs = (c # pre) @ k @ post" by simp
      then show ?thesis by blast
    qed
  next
    assume "\<exists>pre post. c # cs = pre @ k @ post"
    then obtain pre post where eq: "c # cs = pre @ k @ post" by blast
    show "includes_str (c # cs) k"
    proof (cases pre)
      case Nil
      with eq have "starts_with (c # cs) k" by (auto simp: starts_with_iff)
      then show ?thesis by simp
    next
      case (Cons d rest)
      with eq have "cs = rest @ k @ post" by simp
      with Cons.IH have "includes_str cs k" by blast
      then show ?thesis by simp
    qed
  qed
qed

lemma capital_letters_distinct:
  "distinct (map fst (zip capital_letters small_letters))"
  "map fst (zip capital_letters small_letters) = capital_letters"
  by (simp_all add: capital_letters_def small_letters_def)

lemma lower_char_eq_iff:
  assumes "b \<notin> set capital_letters"
  shows "lower_char a = b \<longleftrightarrow> case_variant a b"
proof (cases "map_of (zip capital_letters small_letters) a")
  case None
  then have "a \<notin> fst ` set (zip capital_letters small_letters)"
    by (simp add: map_of_eq_None_iff)
  then have "(a, b) \<notin> set (zip capital_letters small_letters)" by force
  with None show ?thesis by (auto simp: lower_char_def case_variant_def)
next
  case (Some l)
  then have "(a, l) \<in> set (zip capital_letters small_letters)" by (rule map_of_SomeD)
  then have "a \<in> set (map fst (zip capital_letters small_letters))" by force
  then have "a \<in> set capital_letters" by (simp only: capital_letters_distinct(2))
  with assms have ne: "a \<noteq> b" by auto
  have "(a, b) \<in> set (zip capital_letters small_letters) \<longleftrightarrow> l = b"
    using Some map_of_is_SomeI [OF capital_letters_distinct(1), of a b] map_of_SomeD [OF Some]
    by auto
  with Some ne show ?thesis by (simp add: lower_char_def case_variant_def)
qed

lemma ascii_lower_eq_iff:
  "set k \<inter> set capital_letters = {} \<Longrightarrow> ascii_lower s = k \<longleftrightarrow> list_all2 case_variant s k"
proof (induction s arbitrary: k)
  case Nil
  then show ?case by (auto simp: ascii_lower_def)
next
  case (Cons a s)
  show ?case
  proof (cases k)
    case Nil
    then show ?thesis by (simp add: ascii_lower_def)
  next
    case (Cons b k')
    with Cons.prems have b: "b \<notin> set capital_letters" and k': "set k' \<inter> set capital_letters = {}"
      by auto
    from Cons.IH [OF k'] lower_char_eq_iff [OF b, of a] Cons show ?thesis
      by (simp add: ascii_lower_def)
  qed
qed

lemma ascii_lower_contains_iff:
  assumes "set k \<inter> set capital_letters = {}"
  shows "(\<exists>pre post. ascii_lower s = pre @ k @ post) \<longleftrightarrow>
         (\<exists>pre mid post. s = pre @ mid @ post \<and> list_all2 case_variant mid k)"
proof
  assume "\<exists>pre post. ascii_lower s = pre @ k @ post"
  then obtain pre post where "map lower_char s = pre @ k @ post"
    by (auto simp: ascii_lower_def)
  then obtain a r where s: "s = a @ r" and "map lower_char r = k @ post"
    by (metis map_eq_append_conv)
  then obtain b c where r: "r = b @ c" and "map lower_char b = k"
    by (metis map_eq_append_conv)
  then have "list_all2 case_variant b k"
    using ascii_lower_eq_iff [OF assms, of b] by (simp add: ascii_lower_def)
  with s r show "\<exists>pre mid post. s = pre @ mid @ post \<and> list_all2 case_variant mid k" by blast
next
  assume "\<exists>pre mid post. s = pre @ mid @ post \<and> list_all2 case_variant mid k"
  then obtain pre mid post where s: "s = pre @ mid @ post" and "list_all2 case_variant mid k"
    by blast
  then have "ascii_lower mid = k" using ascii_lower_eq_iff [OF assms, of mid] by simp
  with s have "ascii_lower s = ascii_lower pre @ k @ ascii_lower post"
    by (simp add: ascii_lower_def)
  then show "\<exists>pre post. ascii_lower s = pre @ k @ post" by blast
qed

lemma urgentKeywords_small:
  "\<forall>k\<in>set urgentKeywords. set k \<inter> set capital_letters = {}"
  by (simp add: urgentKeywords_def capital_letters_def)

lemma kelvin_lower_ascii: "is_ascii s \<Longrightarrow> kelvin_lower s = ascii_lower s"
proof (induction s rule: kelvin_lower.induct)
  case (1 a b c s)
  from "1.prems" have "of_char a < (128 :: nat)" by (simp add: is_ascii_def)
  then have "[a, b, c] \<noteq> kelvin_sign" by (auto simp: kelvin_sign_def)
  with 1 show ?case by (simp add: is_ascii_def ascii_lower_def)
qed (simp_all add: ascii_lower_def)

section \<open>Proofs: the worker\<close>

lemma extract_result_eq:
  "extract_result env c s =
     (case match_delimited c of
        None \<Rightarrow> (Inl MissingDelimiters, s)
      | Some body \<Rightarrow>
          if body = [] then (Inl MissingDelimiters, s)
          else (case parse_trimmed env body of
                  None \<Rightarrow> (Inl JsonSyntaxError, s)
                | Some result \<Rightarrow>
                    if nullish result then (Inl TypeError, s)
                    else (Inr (field_of result ''analysis'', field_of result ''classification''), s)))"
  by (simp add: extract_result_def raise_def and_then_def from_result_def get_field_def
      succeed_def split: option.splits)

lemma analyzeAndClassifyMessage_eq:
  "client_ready env \<Longrightarrow> completion env = Inr (Some c) \<Longrightarrow> c \<noteq> [] \<Longrightarrow>
   analyzeAndClassifyMessage env message s =
     (case extract_result env c s of
        (Inl parseError, s') \<Rightarrow> (Inr (fallback_analysis, fallback_classification), s')
      | (Inr x, s') \<Rightarrow> (Inr x, s'))"
  by (simp add: analyzeAndClassifyMessage_def and_then_def from_result_def try_catch_def
      succeed_def split: prod.splits sum.splits)






lemma match_empty_object: "match_delimited empty_object_reply = Some ''{}''"
  by (simp add: match_delimited_def empty_object_reply_def start_delimiter_def
      end_delimiter_def starts_with_def)


lemma sample_parse_empty_object: "sample_parse ''{}'' = Some (JObj [])"
  by (simp add: sample_parse_def partial_json_def full_json_def)



text \<open>
  A reply whose block parses to an object without \<open>analysis\<close> and \<open>classification\<close>:
  \<open>reportToDecisionEngine\<close> reads \<open>classification.urgency\<close> of \<open>undefined\<close>, and the
  \<open>TypeError\<close> leaves \<open>processUserMessage\<close> before the defaults of its return statement
  are reached.
\<close>

lemma processUserMessage_missing_sections_raise:
  "fst (processUserMessage empty_object_env sample_message (sample_worker, [])) = Inl TypeError"
proof -
  let ?env = "sample_env\<lparr>completion := Inr (Some empty_object_reply)\<rparr>"
  have an: "analyzeAndClassifyMessage ?env sample_message s = (Inr (JUndefined, JUndefined), s)"
    for s
  proof -
    have "client_ready ?env" "completion ?env = Inr (Some empty_object_reply)"
      "empty_object_reply \<noteq> []"
      by (simp_all add: sample_env_def empty_object_reply_def start_delimiter_def)
    moreover have "parse_trimmed ?env ''{}'' = Some (JObj [])"
      by (simp add: sample_env_def sample_parse_empty_object)
    ultimately show ?thesis
      using analyzeAndClassifyMessage_eq [of ?env empty_object_reply sample_message s]
      by (simp add: extract_result_eq match_empty_object nullish_def)
  qed
  show ?thesis
    unfolding empty_object_env_def
    by (simp add: processUserMessage_def try_finally_def and_then_def on_self_def an
      reportToDecisionEngine_def get_field_def from_result_def nullish_def)
qed

lemma match_keyless_urgency: "match_delimited keyless_urgency_reply = Some keyless_urgency_json"
  by (simp add: match_delimited_def keyless_urgency_reply_def keyless_urgency_json_def
      start_delimiter_def end_delimiter_def starts_with_def)


lemma sample_parse_keyless_urgency:
  "sample_parse keyless_urgency_json = Some keyless_urgency_result"
  by (simp add: sample_parse_def partial_json_def full_json_def keyless_urgency_json_def
      keyless_intent_json_def)


text \<open>
  A reply whose urgency is an object with a \<open>toString\<close> property of its own:
  \<open>mapUrgencyToPriority\<close> indexes its table with it, the conversion to a property key
  raises, and the \<open>TypeError\<close> leaves \<open>processUserMessage\<close>.
\<close>

lemma processUserMessage_keyless_urgency_raises:
  "fst (processUserMessage keyless_urgency_env sample_message (sample_worker, [])) = Inl TypeError"
proof -
  let ?env = "sample_env\<lparr>completion := Inr (Some keyless_urgency_reply)\<rparr>"
  have an: "analyzeAndClassifyMessage ?env sample_message s =
      (Inr (field_of keyless_urgency_result ''analysis'',
            field_of keyless_urgency_result ''classification''), s)"
    for s
  proof -
    have "client_ready ?env" "completion ?env = Inr (Some keyless_urgency_reply)"
      "keyless_urgency_reply \<noteq> []"
      by (simp_all add: sample_env_def keyless_urgency_reply_def start_delimiter_def)
    moreover have "keyless_urgency_json \<noteq> []" by (simp add: keyless_urgency_json_def)
    moreover have "parse_trimmed ?env keyless_urgency_json = Some keyless_urgency_result"
      by (simp add: sample_env_def sample_parse_keyless_urgency)
    moreover have "\<not> nullish keyless_urgency_result"
      by (simp add: keyless_urgency_result_def nullish_def)
    ultimately show ?thesis
      using analyzeAndClassifyMessage_eq [of ?env keyless_urgency_reply sample_message s]
      by (simp add: extract_result_eq match_keyless_urgency)
  qed
  show ?thesis
    unfolding keyless_urgency_env_def
    by (simp add: processUserMessage_def try_finally_def and_then_def on_self_def an
      reportToDecisionEngine_def mapUrgencyToPriority_def lookup_or_def table_lookup_def
      get_field_def from_result_def nullish_def keyless_urgency_result_def)
qed

lemma analyzeAndClassifyMessage_state:
  "analyzeAndClassifyMessage env message s = (r, s') \<Longrightarrow> s' = s"
  by (auto simp: analyzeAndClassifyMessage_def raise_def and_then_def from_result_def
      try_catch_def succeed_def extract_result_eq
      split: if_splits sum.splits option.splits prod.splits)

lemma processUserMessage_Inr:
  assumes "processUserMessage env message wk = (Inr processed, wk')"
  shows "pm_originalMessage processed = message \<and> pm_agentId processed = agentId (fst wk)"
proof -
  obtain r s' where an:
    "analyzeAndClassifyMessage env message ((fst wk)\<lparr>isProcessing := True\<rparr>, snd wk) = (r, s')"
    by (cases "analyzeAndClassifyMessage env message ((fst wk)\<lparr>isProcessing := True\<rparr>, snd wk)")
  note s' = analyzeAndClassifyMessage_state [OF an]
  from assms an show ?thesis
    unfolding s'
    by (auto simp: processUserMessage_def try_finally_def and_then_def on_self_def
      reportToDecisionEngine_def storeProcessedMessage_def sendMessage_via_def
      from_result_def from_outcome_def record_event_def succeed_def
      split: prod.splits sum.splits option.splits if_splits)
qed

section \<open>Proofs: the hub\<close>

lemma getAvailableProcessor_messageQueue:
  "getAvailableProcessor (hub\<lparr>messageQueue := q\<rparr>) = getAvailableProcessor hub"
  by (simp add: getAvailableProcessor_def)

lemma queue_tick_eq:
  "queue_tick (hub, trail) =
     (if isEmpty (messageQueue hub) then (Inr None, (hub, trail))
      else (case dequeue (messageQueue hub) of
              (None, q) \<Rightarrow> (Inr None, (hub\<lparr>messageQueue := q\<rparr>, trail @ [Dequeued None]))
            | (Some m, q) \<Rightarrow>
                (Inr (Some (getAvailableProcessor hub, m)),
                 (put_processor (getAvailableProcessor hub)
                    ((processor_of hub (getAvailableProcessor hub))\<lparr>isProcessing := True\<rparr>)
                    (hub\<lparr>messageQueue := q\<rparr>),
                  trail @ [Dequeued (Some m)]))))"
  by (cases "getAvailableProcessor hub")
     (simp_all add: queue_tick_def queue_dequeue_def begin_processMessage_def on_processor_def
      on_part_def on_self_def and_then_def succeed_def getAvailableProcessor_messageQueue
      split: prod.splits option.splits)

lemma processMessage_eq:
  "processMessage env processor message w =
     (case on_processor processor (processUserMessage env message) w of
        (Inl err, w1) \<Rightarrow> handleProcessingError env err message w1
      | (Inr processed, w1) \<Rightarrow>
          (case handleProcessedMessage env (Some processed) w1 of
             (Inl err, w2) \<Rightarrow> handleProcessingError env err message w2
           | (Inr u, w2) \<Rightarrow> (Inr u, w2)))"
  by (simp add: processMessage_def try_catch_def and_then_def split: prod.splits sum.splits)

lemma process_immediately_eq:
  "process_immediately env message w =
     (case on_processor (getAvailableProcessor (fst w)) (processUserMessage env message) w of
        (Inl err, w1) \<Rightarrow> (Inl err, w1)
      | (Inr processed, w1) \<Rightarrow>
          (case handleProcessedMessage env (Some processed) w1 of
             (Inl err, w2) \<Rightarrow> (Inl err, w2)
           | (Inr u, w2) \<Rightarrow> (generateUserResponse env (Some processed), w2)))"
  by (simp add: process_immediately_def and_then_def from_result_def split: prod.splits sum.splits)

lemma on_processor_Inr:
  "on_processor processor (processUserMessage env message) w = (Inr processed, w1) \<Longrightarrow>
     pm_originalMessage processed = message \<and>
     pm_agentId processed = agentId (processor_of (fst w) processor) \<and>
     processor_of (fst w1) (other_ref processor) = processor_of (fst w) (other_ref processor)"
  by (cases processor)
     (auto simp: on_processor_def on_part_def dest: processUserMessage_Inr split: prod.splits)

text \<open>
  Claim C9. \<open>startQueueProcessor\<close> sets the callback to run every 100 milliseconds. Take a
  hub whose queue is what any sequence of enqueue and dequeue calls made of a new queue.
  On an empty queue one run of the callback attempts no dequeue, starts nothing and
  leaves the hub and the log as they are. On a non-empty queue it dequeues exactly once:
  one entry is removed, the one \<open>dequeue\<close> serves first, and the call
  \<open>processMessage\<close> is started for its message on the worker that
  \<open>getAvailableProcessor\<close> gives for the hub, which is marked busy when the callback
  returns. That call submits the message to that worker: \<open>processMessage\<close> is the call of
  \<open>processUserMessage\<close> on the worker it is given, followed by the handling of the result
  or of the error, and what the worker returns names the message and the worker and
  leaves the other worker alone. The immediate path submits its message in the same way
  to the worker that \<open>getAvailableProcessor\<close> gives for the hub.
\<close>

theorem queue_tick_dequeues_at_most_one:
  "messageQueue hub = snd (run_calls emptyQueue calls) \<Longrightarrow>
     interval_ms startQueueProcessor = 100 \<and>
     (isEmpty (messageQueue hub) \<longrightarrow>
        callback startQueueProcessor (hub, trail) = (Inr None, (hub, trail))) \<and>
     (\<not> isEmpty (messageQueue hub) \<longrightarrow>
        (\<exists>m\<in>set (entries (messageQueue hub)).
           (\<forall>e\<in>set (entries (messageQueue hub)). e \<noteq> m \<longrightarrow>
              q_priority m < q_priority e \<or>
              (q_priority m = q_priority e \<and> q_sequence m < q_sequence e)) \<and>
           callback startQueueProcessor (hub, trail) =
             (Inr (Some (getAvailableProcessor hub, q_item m)),
              (put_processor (getAvailableProcessor hub)
                 ((processor_of hub (getAvailableProcessor hub))\<lparr>isProcessing := True\<rparr>)
                 (hub\<lparr>messageQueue :=
                    (messageQueue hub)\<lparr>entries := remove1 m (entries (messageQueue hub))\<rparr>\<rparr>),
               trail @ [Dequeued (Some (q_item m))])))) \<and>
     processMessage env processor message w =
       (case on_processor processor (processUserMessage env message) w of
          (Inl err, w1) \<Rightarrow> handleProcessingError env err message w1
        | (Inr processed, w1) \<Rightarrow>
            (case handleProcessedMessage env (Some processed) w1 of
               (Inl err, w2) \<Rightarrow> handleProcessingError env err message w2
             | (Inr u, w2) \<Rightarrow> (Inr u, w2))) \<and>
     (\<forall>processed w1.
        on_processor processor (processUserMessage env message) w = (Inr processed, w1) \<longrightarrow>
          pm_originalMessage processed = message \<and>
          pm_agentId processed = agentId (processor_of (fst w) processor) \<and>
          processor_of (fst w1) (other_ref processor) = processor_of (fst w) (other_ref processor)) \<and>
     process_immediately env message (hub, trail) =
       (case on_processor (getAvailableProcessor hub) (processUserMessage env message)
               (hub, trail) of
          (Inl err, w1) \<Rightarrow> (Inl err, w1)
        | (Inr processed, w1) \<Rightarrow>
            (case handleProcessedMessage env (Some processed) w1 of
               (Inl err, w2) \<Rightarrow> (Inl err, w2)
             | (Inr u, w2) \<Rightarrow> (generateUserResponse env (Some processed), w2)))"
proof -
  assume "messageQueue hub = snd (run_calls emptyQueue calls)"
  then have inv: "queue_inv (messageQueue hub)"
    using queue_inv_run_calls [OF queue_inv_empty, of calls] by simp
  have timer: "interval_ms startQueueProcessor = 100"
    "callback startQueueProcessor = queue_tick"
    by (simp_all add: startQueueProcessor_def)
  have empty: "isEmpty (messageQueue hub) \<longrightarrow>
        callback startQueueProcessor (hub, trail) = (Inr None, (hub, trail))"
    by (simp add: timer queue_tick_eq)
  have front: "\<not> isEmpty (messageQueue hub) \<longrightarrow>
        (\<exists>m\<in>set (entries (messageQueue hub)).
           (\<forall>e\<in>set (entries (messageQueue hub)). e \<noteq> m \<longrightarrow>
              q_priority m < q_priority e \<or>
              (q_priority m = q_priority e \<and> q_sequence m < q_sequence e)) \<and>
           callback startQueueProcessor (hub, trail) =
             (Inr (Some (getAvailableProcessor hub, q_item m)),
              (put_processor (getAvailableProcessor hub)
                 ((processor_of hub (getAvailableProcessor hub))\<lparr>isProcessing := True\<rparr>)
                 (hub\<lparr>messageQueue :=
                    (messageQueue hub)\<lparr>entries := remove1 m (entries (messageQueue hub))\<rparr>\<rparr>),
               trail @ [Dequeued (Some (q_item m))])))"
  proof
    assume ne: "\<not> isEmpty (messageQueue hub)"
    then have "entries (messageQueue hub) \<noteq> []" by (simp add: isEmpty_def)
    from dequeue_nonempty [OF inv this] obtain m where m: "m \<in> set (entries (messageQueue hub))"
      "\<forall>e\<in>set (entries (messageQueue hub)). e \<noteq> m \<longrightarrow> goes_before m e"
      "dequeue (messageQueue hub) =
         (Some (q_item m), (messageQueue hub)\<lparr>entries := remove1 m (entries (messageQueue hub))\<rparr>)"
      by blast
    have "callback startQueueProcessor (hub, trail) =
             (Inr (Some (getAvailableProcessor hub, q_item m)),
              (put_processor (getAvailableProcessor hub)
                 ((processor_of hub (getAvailableProcessor hub))\<lparr>isProcessing := True\<rparr>)
                 (hub\<lparr>messageQueue :=
                    (messageQueue hub)\<lparr>entries := remove1 m (entries (messageQueue hub))\<rparr>\<rparr>),
               trail @ [Dequeued (Some (q_item m))]))"
      using ne by (simp add: timer queue_tick_eq m(3))
    with m(1,2) show "\<exists>m\<in>set (entries (messageQueue hub)).
           (\<forall>e\<in>set (entries (messageQueue hub)). e \<noteq> m \<longrightarrow>
              q_priority m < q_priority e \<or>
              (q_priority m = q_priority e \<and> q_sequence m < q_sequence e)) \<and>
           callback startQueueProcessor (hub, trail) =
             (Inr (Some (getAvailableProcessor hub, q_item m)),
              (put_processor (getAvailableProcessor hub)
                 ((processor_of hub (getAvailableProcessor hub))\<lparr>isProcessing := True\<rparr>)
                 (hub\<lparr>messageQueue :=
                    (messageQueue hub)\<lparr>entries := remove1 m (entries (messageQueue hub))\<rparr>\<rparr>),
               trail @ [Dequeued (Some (q_item m))]))"
      unfolding goes_before_def by blast
  qed
  have submitted: "\<forall>processed w1.
        on_processor processor (processUserMessage env message) w = (Inr processed, w1) \<longrightarrow>
          pm_originalMessage processed = message \<and>
          pm_agentId processed = agentId (processor_of (fst w) processor) \<and>
          processor_of (fst w1) (other_ref processor) = processor_of (fst w) (other_ref processor)"
    using on_processor_Inr by blast
  have immediate: "process_immediately env message (hub, trail) =
       (case on_processor (getAvailableProcessor hub) (processUserMessage env message)
               (hub, trail) of
          (Inl err, w1) \<Rightarrow> (Inl err, w1)
        | (Inr processed, w1) \<Rightarrow>
            (case handleProcessedMessage env (Some processed) w1 of
               (Inl err, w2) \<Rightarrow> (Inl err, w2)
             | (Inr u, w2) \<Rightarrow> (generateUserResponse env (Some processed), w2)))"
    using process_immediately_eq [of env message "(hub, trail)"] by simp
  from timer(1) empty front processMessage_eq [of env processor message w] submitted immediate
  show ?thesis by blast
qed

lemma sample_worker_run:
  "on_processor Processor1 (processUserMessage sample_env m) (hub, trail) =
   (Inr \<lparr>pm_originalMessage = m, pm_intent = JStr ''issue'',
         pm_entities = empty_entities, pm_urgency = JStr ''high'',
         pm_suggestedAction = JStr ''escalate'', pm_agentId = agentId (processor1 hub),
         pm_processedAt = 1000\<rparr>,
    (hub\<lparr>processor1 := (processor1 hub)\<lparr>isProcessing := False\<rparr>\<rparr>,
     trail @
     [Published
        \<lparr>e_type = ''USER_COMMUNICATION'',
         e_source = ''user_message_processor_'' @ agentId (processor1 hub),
         e_target = ''decision_engine'',
         e_payload = AnalysisReport (field_of sample_result ''analysis'')
                       (field_of sample_result ''classification''),
         e_priority = JNum 2, e_timestamp = 1000, e_correlationId = JStr ''msg_1''\<rparr>,
      StoredProcessed (um_id m) (field_of sample_result ''analysis'')
        (field_of sample_result ''classification'') (agentId (processor1 hub))]))"
  by (simp add: on_processor_def on_part_def processUserMessage_def
      analyzeAndClassifyMessage_def extract_result_def match_delimited_def start_delimiter_def
      end_delimiter_def starts_with_def reportToDecisionEngine_def storeProcessedMessage_def
      sendMessage_via_def mapUrgencyToPriority_def lookup_or_def table_lookup_def
      priorityMap_def js_or_def get_field_def opt_field_def nullish_def try_finally_def
      try_catch_def and_then_def from_result_def from_outcome_def record_event_def on_self_def
      succeed_def raise_def sample_env_def sample_reply_def sample_result_def sample_parse_def
      full_json_def partial_json_def empty_entities_def)

lemma sample_handling:
  "um_userId m \<in> set (activeConnections hub) \<Longrightarrow> um_userId m \<noteq> [] \<Longrightarrow>
   handleProcessedMessage sample_env
     (Some \<lparr>pm_originalMessage = m, pm_intent = JStr ''issue'',
            pm_entities = empty_entities, pm_urgency = JStr ''high'',
            pm_suggestedAction = JStr ''escalate'', pm_agentId = a,
            pm_processedAt = 1000\<rparr>) (hub, trail) =
   (Inr (),
    (hub,
     trail @
     [Published
        \<lparr>e_type = ''USER_COMMUNICATION'', e_source = ''user_communication_hub'',
         e_target = ''decision_engine'',
         e_payload =
           ProcessedReport
             \<lparr>pm_originalMessage = m, pm_intent = JStr ''issue'',
              pm_entities = empty_entities, pm_urgency = JStr ''high'',
              pm_suggestedAction = JStr ''escalate'', pm_agentId = a,
              pm_processedAt = 1000\<rparr> [] [],
         e_priority = JNum 2, e_timestamp = 1000, e_correlationId = JUndefined\<rparr>,
      Emitted (um_userId m)
        (Response (um_id m)
           (JStr ''I've logged this issue and notified the relevant team members.''))]))"
  by (simp add: handleProcessedMessage_def generateRecommendations_def sendMessage_via_def
      sendUserResponse_def generateUserResponse_def determinePriority_def lookup_or_def
      table_lookup_def priorityMap_def responses_def js_or_def and_then_def from_result_def
      from_outcome_def record_event_def succeed_def sample_env_def)

text \<open>
  The theorem on a hub with two queued messages: the callback dequeues the second
  message, which has the lower priority value, marks the first worker busy and starts
  \<open>processMessage\<close> on it; that call, run to its end, has the first worker report and store
  its analysis, and the hub publish the processed message and answer the user.
\<close>

theorem queue_tick_dequeues_at_most_one_witness:
  "callback startQueueProcessor (queued_hub, []) =
     (Inr (Some (Processor1, second_message)),
      (\<lparr>processor1 = \<lparr>agentId = ''gpt5mini_1'', processingQueue = [], isProcessing = True\<rparr>,
        processor2 = \<lparr>agentId = ''gpt5mini_2'', processingQueue = [], isProcessing = False\<rparr>,
        messageQueue =
          \<lparr>entries = [\<lparr>q_item = sample_message, q_priority = 3, q_sequence = 0\<rparr>],
           nextSequence = 2\<rparr>,
        activeConnections = [''u1'']\<rparr>,
       [Dequeued (Some second_message)])) \<and>
   processMessage sample_env Processor1 second_message
     (\<lparr>processor1 = \<lparr>agentId = ''gpt5mini_1'', processingQueue = [], isProcessing = True\<rparr>,
       processor2 = \<lparr>agentId = ''gpt5mini_2'', processingQueue = [], isProcessing = False\<rparr>,
       messageQueue =
         \<lparr>entries = [\<lparr>q_item = sample_message, q_priority = 3, q_sequence = 0\<rparr>],
          nextSequence = 2\<rparr>,
       activeConnections = [''u1'']\<rparr>,
      [Dequeued (Some second_message)]) =
     (Inr (),
      (\<lparr>processor1 = \<lparr>agentId = ''gpt5mini_1'', processingQueue = [], isProcessing = False\<rparr>,
        processor2 = \<lparr>agentId = ''gpt5mini_2'', processingQueue = [], isProcessing = False\<rparr>,
        messageQueue =
          \<lparr>entries = [\<lparr>q_item = sample_message, q_priority = 3, q_sequence = 0\<rparr>],
           nextSequence = 2\<rparr>,
        activeConnections = [''u1'']\<rparr>,
       [Dequeued (Some second_message),
        Published
          \<lparr>e_type = ''USER_COMMUNICATION'',
           e_source = ''user_message_processor_gpt5mini_1'',
           e_target = ''decision_engine'',
           e_payload = AnalysisReport (field_of sample_result ''analysis'')
                         (field_of sample_result ''classification''),
           e_priority = JNum 2, e_timestamp = 1000, e_correlationId = JStr ''msg_1''\<rparr>,
        StoredProcessed ''msg_2'' (field_of sample_result ''analysis'')
          (field_of sample_result ''classification'') ''gpt5mini_1'',
        Published
          \<lparr>e_type = ''USER_COMMUNICATION'', e_source = ''user_communication_hub'',
           e_target = ''decision_engine'',
           e_payload =
             ProcessedReport
               \<lparr>pm_originalMessage = second_message, pm_intent = JStr ''issue'',
                pm_entities = empty_entities, pm_urgency = JStr ''high'',
                pm_suggestedAction = JStr ''escalate'', pm_agentId = ''gpt5mini_1'',
                pm_processedAt = 1000\<rparr> [] [],
           e_priority = JNum 2, e_timestamp = 1000, e_correlationId = JUndefined\<rparr>,
        Emitted ''u1''
          (Response ''msg_2''
             (JStr ''I've logged this issue and notified the relevant team members.''))]))"
proof -
  let ?busy = "\<lparr>processor1 = \<lparr>agentId = ''gpt5mini_1'', processingQueue = [], isProcessing = True\<rparr>,
       processor2 = \<lparr>agentId = ''gpt5mini_2'', processingQueue = [], isProcessing = False\<rparr>,
       messageQueue =
         \<lparr>entries = [\<lparr>q_item = sample_message, q_priority = 3, q_sequence = 0\<rparr>],
          nextSequence = 2\<rparr>,
       activeConnections = [''u1'']\<rparr>"
  have q: "messageQueue queued_hub =
             snd (run_calls emptyQueue [Enqueue sample_message 3, Enqueue second_message 1])"
    by (simp add: queued_hub_def)
  have es: "entries (messageQueue queued_hub) =
      [\<lparr>q_item = sample_message, q_priority = 3, q_sequence = 0\<rparr>,
       \<lparr>q_item = second_message, q_priority = 1, q_sequence = 1\<rparr>]"
    "nextSequence (messageQueue queued_hub) = 2"
    by (simp_all add: queued_hub_def emptyQueue_def enqueue_def)
  have sel: "getAvailableProcessor queued_hub = Processor1"
    by (simp add: getAvailableProcessor_def isAvailable_def queueSize_def queued_hub_def
        sample_hub_def)
  have ne: "\<not> isEmpty (messageQueue queued_hub)"
    by (simp add: isEmpty_def es)
  note t = queue_tick_dequeues_at_most_one
    [OF q, of "[]" sample_env Processor1 second_message "(?busy, [Dequeued (Some second_message)])"]
  from t ne obtain m where
    m: "m \<in> set (entries (messageQueue queued_hub))"
    and least: "\<forall>e\<in>set (entries (messageQueue queued_hub)). e \<noteq> m \<longrightarrow>
              q_priority m < q_priority e \<or>
              (q_priority m = q_priority e \<and> q_sequence m < q_sequence e)"
    and tick: "callback startQueueProcessor (queued_hub, []) =
             (Inr (Some (getAvailableProcessor queued_hub, q_item m)),
              (put_processor (getAvailableProcessor queued_hub)
                 ((processor_of queued_hub (getAvailableProcessor queued_hub))\<lparr>isProcessing := True\<rparr>)
                 (queued_hub\<lparr>messageQueue :=
                    (messageQueue queued_hub)\<lparr>entries := remove1 m (entries (messageQueue queued_hub))\<rparr>\<rparr>),
               [] @ [Dequeued (Some (q_item m))]))"
    by blast
  from m least have "m = \<lparr>q_item = second_message, q_priority = 1, q_sequence = 1\<rparr>"
    unfolding es by auto
  with tick sel es have first: "callback startQueueProcessor (queued_hub, []) =
     (Inr (Some (Processor1, second_message)), (?busy, [Dequeued (Some second_message)]))"
    by (simp add: queued_hub_def sample_hub_def emptyQueue_def enqueue_def)
  from t have "processMessage sample_env Processor1 second_message
       (?busy, [Dequeued (Some second_message)]) =
       (case on_processor Processor1 (processUserMessage sample_env second_message)
               (?busy, [Dequeued (Some second_message)]) of
          (Inl err, w1) \<Rightarrow> handleProcessingError sample_env err second_message w1
        | (Inr processed, w1) \<Rightarrow>
            (case handleProcessedMessage sample_env (Some processed) w1 of
               (Inl err, w2) \<Rightarrow> handleProcessingError sample_env err second_message w2
             | (Inr u, w2) \<Rightarrow> (Inr u, w2)))"
    by blast
  also have "\<dots> =
     (case handleProcessedMessage sample_env
         (Some \<lparr>pm_originalMessage = second_message, pm_intent = JStr ''issue'',
            pm_entities = empty_entities, pm_urgency = JStr ''high'',
            pm_suggestedAction = JStr ''escalate'', pm_agentId = ''gpt5mini_1'',
            pm_processedAt = 1000\<rparr>)
         (?busy\<lparr>processor1 := (processor1 ?busy)\<lparr>isProcessing := False\<rparr>\<rparr>,
          [Dequeued (Some second_message)] @
          [Published
            \<lparr>e_type = ''USER_COMMUNICATION'',
             e_source = ''user_message_processor_'' @ ''gpt5mini_1'',
             e_target = ''decision_engine'',
             e_payload = AnalysisReport (field_of sample_result ''analysis'')
                           (field_of sample_result ''classification''),
             e_priority = JNum 2, e_timestamp = 1000, e_correlationId = JStr ''msg_1''\<rparr>,
           StoredProcessed (um_id second_message) (field_of sample_result ''analysis'')
             (field_of sample_result ''classification'') ''gpt5mini_1'']) of
        (Inl err, w2) \<Rightarrow> handleProcessingError sample_env err second_message w2
      | (Inr u, w2) \<Rightarrow> (Inr u, w2))"
    unfolding sample_worker_run by simp
  also have "\<dots> =
     (Inr (),
      (?busy\<lparr>processor1 := (processor1 ?busy)\<lparr>isProcessing := False\<rparr>\<rparr>,
       ([Dequeued (Some second_message)] @
          [Published
            \<lparr>e_type = ''USER_COMMUNICATION'',
             e_source = ''user_message_processor_'' @ ''gpt5mini_1'',
             e_target = ''decision_engine'',
             e_payload = AnalysisReport (field_of sample_result ''analysis'')
                           (field_of sample_result ''classification''),
             e_priority = JNum 2, e_timestamp = 1000, e_correlationId = JStr ''msg_1''\<rparr>,
           StoredProcessed (um_id second_message) (field_of sample_result ''analysis'')
             (field_of sample_result ''classification'') ''gpt5mini_1'']) @
       [Published
        \<lparr>e_type = ''USER_COMMUNICATION'', e_source = ''user_communication_hub'',
         e_target = ''decision_engine'',
         e_payload =
           ProcessedReport
             \<lparr>pm_originalMessage = second_message, pm_intent = JStr ''issue'',
              pm_entities = empty_entities, pm_urgency = JStr ''high'',
              pm_suggestedAction = JStr ''escalate'', pm_agentId = ''gpt5mini_1'',
              pm_processedAt = 1000\<rparr> [] [],
         e_priority = JNum 2, e_timestamp = 1000, e_correlationId = JUndefined\<rparr>,
      Emitted (um_userId second_message)
        (Response (um_id second_message)
           (JStr ''I've logged this issue and notified the relevant team members.''))]))"
    by (subst sample_handling) (simp_all add: second_message_def sample_message_def)
  finally have second: "processMessage sample_env Processor1 second_message
       (?busy, [Dequeued (Some second_message)]) =
     (Inr (),
      (?busy\<lparr>processor1 := (processor1 ?busy)\<lparr>isProcessing := False\<rparr>\<rparr>,
       ([Dequeued (Some second_message)] @
          [Published
            \<lparr>e_type = ''USER_COMMUNICATION'',
             e_source = ''user_message_processor_'' @ ''gpt5mini_1'',
             e_target = ''decision_engine'',
             e_payload = AnalysisReport (field_of sample_result ''analysis'')
                           (field_of sample_result ''classification''),
             e_priority = JNum 2, e_timestamp = 1000, e_correlationId = JStr ''msg_1''\<rparr>,
           StoredProcessed (um_id second_message) (field_of sample_result ''analysis'')
             (field_of sample_result ''classification'') ''gpt5mini_1'']) @
       [Published
        \<lparr>e_type = ''USER_COMMUNICATION'', e_source = ''user_communication_hub'',
         e_target = ''decision_engine'',
         e_payload =
           ProcessedReport
             \<lparr>pm_originalMessage = second_message, pm_intent = JStr ''issue'',
              pm_entities = empty_entities, pm_urgency = JStr ''high'',
              pm_suggestedAction = JStr ''escalate'', pm_agentId = ''gpt5mini_1'',
              pm_processedAt = 1000\<rparr> [] [],
         e_priority = JNum 2, e_timestamp = 1000, e_correlationId = JUndefined\<rparr>,
      Emitted (um_userId second_message)
        (Response (um_id second_message)
           (JStr ''I've logged this issue and notified the relevant team members.''))]))" .
  have ids: "um_id second_message = ''msg_2''" "um_userId second_message = ''u1''"
    by (simp_all add: second_message_def sample_message_def)
  from first second show ?thesis unfolding ids by simp
qed

text \<open>
  Claim C10. For a processed message that is missing, or whose intent is \<open>undefined\<close>,
  \<open>null\<close> or the empty string, \<open>handleProcessedMessage\<close> returns normally at once: it
  publishes no envelope, sends the user nothing, and leaves the hub and the log as they
  were.
\<close>

theorem handleProcessedMessage_drops_missing_intent:
  "processed = None \<or>
   (\<exists>p. processed = Some p \<and> (pm_intent p = JUndefined \<or> pm_intent p = JNull \<or> pm_intent p = JStr [])) \<Longrightarrow>
   handleProcessedMessage env processed w = (Inr (), w)"
  by (auto simp: handleProcessedMessage_def succeed_def)

text \<open>The theorem on a message with an empty intent, sent by a connected user.\<close>

theorem handleProcessedMessage_drops_missing_intent_witness:
  "handleProcessedMessage sample_env
     (Some \<lparr>pm_originalMessage = sample_message, pm_intent = JStr [], pm_entities = empty_entities,
            pm_urgency = JStr ''critical'', pm_suggestedAction = JStr ''escalate'',
            pm_agentId = ''gpt5mini_1'', pm_processedAt = 0\<rparr>)
     (sample_hub, []) = (Inr (), (sample_hub, []))"
  using handleProcessedMessage_drops_missing_intent
    [of "Some \<lparr>pm_originalMessage = sample_message, pm_intent = JStr [], pm_entities = empty_entities,
            pm_urgency = JStr ''critical'', pm_suggestedAction = JStr ''escalate'',
            pm_agentId = ''gpt5mini_1'', pm_processedAt = 0\<rparr>" sample_env "(sample_hub, [])"]
  by simp

section \<open>Proofs: the ingestion path\<close>

lemma build_message_Inr:
  assumes "build_message env userId message incoming w = (Inr um, w0)"
  shows "w0 = w" and "um_content um = message" and "um_userId um = userId"
    and "um_userStatus um = ''blocked'' \<longleftrightarrow> user_status_read env = Inr (Some ''blocked'')"
    and "um_id um = fresh_id env"
  using assms
  by (auto simp: build_message_def getUserName_def getUserCurrentTasks_def getUserStatus_def
      and_then_Inr_iff from_result_Inr_iff succeed_Inr_iff split: option.splits if_splits)

lemma on_processor_frame:
  "on_processor r m w = (res, w') \<Longrightarrow>
     messageQueue (fst w') = messageQueue (fst w) \<and>
     activeConnections (fst w') = activeConnections (fst w)"
  by (cases r) (auto simp: on_processor_def on_part_def split: prod.splits)

lemma handleProcessedMessage_frame:
  "handleProcessedMessage env processed w = (res, w') \<Longrightarrow> fst w' = fst w"
  by (auto simp: handleProcessedMessage_def generateRecommendations_def
      findUsersWithExpertise_def sendMessage_via_def sendUserResponse_def and_then_def
      from_result_def from_outcome_def record_event_def succeed_def
      split: option.splits sum.splits prod.splits if_splits)

lemma process_immediately_frame:
  assumes "process_immediately env um w = (res, w')"
  shows "messageQueue (fst w') = messageQueue (fst w) \<and>
         activeConnections (fst w') = activeConnections (fst w)"
proof -
  obtain r1 w1 where 1:
    "on_processor (getAvailableProcessor (fst w)) (processUserMessage env um) w = (r1, w1)"
    by (cases "on_processor (getAvailableProcessor (fst w)) (processUserMessage env um) w")
  note f1 = on_processor_frame [OF 1]
  show ?thesis
  proof (cases r1)
    case (Inl e)
    with assms 1 have "w' = w1" by (simp add: process_immediately_eq)
    with f1 show ?thesis by simp
  next
    case (Inr processed)
    obtain r2 w2 where 2: "handleProcessedMessage env (Some processed) w1 = (r2, w2)"
      by (cases "handleProcessedMessage env (Some processed) w1")
    from assms 1 Inr 2 have "w' = w2"
      by (cases r2) (simp_all add: process_immediately_eq)
    with handleProcessedMessage_frame [OF 2] f1 show ?thesis by simp
  qed
qed

lemma fall_back_to_queue_eq:
  "fall_back_to_queue env um w =
     (Inr (JStr acknowledgment_text),
      ((fst w)\<lparr>messageQueue :=
          enqueue (messageQueue (fst w)) um (calculateMessagePriority env um)\<rparr>,
       snd w @ [Enqueued um (calculateMessagePriority env um)]
       @ (if um_userId um \<in> set (activeConnections (fst w))
          then [Emitted (um_userId um) (Acknowledgment (um_id um))] else [])))"
  by (simp add: fall_back_to_queue_def queue_enqueue_def sendAcknowledgment_def and_then_def
      on_self_def record_event_def succeed_def)

lemma calculateMessagePriority_eq:
  "calculateMessagePriority env um =
     (if \<exists>keyword\<in>set [''blocked'', ''critical'', ''urgent'', ''help'', ''error'', ''broken''].
           \<exists>pre post. to_lower_case env (um_content um) = pre @ keyword @ post
      then 1
      else if um_userStatus um = ''blocked'' then 2 else 3)"
  unfolding calculateMessagePriority_def urgentKeywords_def list_ex_iff includes_str_iff ..

lemma ascii_keyword_iff:
  assumes "to_lower_case env message = ascii_lower message"
  shows "(\<exists>keyword\<in>set [''blocked'', ''critical'', ''urgent'', ''help'', ''error'', ''broken''].
            \<exists>pre post. to_lower_case env message = pre @ keyword @ post) \<longleftrightarrow>
         (\<exists>keyword\<in>set [''blocked'', ''critical'', ''urgent'', ''help'', ''error'', ''broken''].
            \<exists>pre mid post. message = pre @ mid @ post \<and> list_all2 case_variant mid keyword)"
proof -
  have "(\<exists>pre post. to_lower_case env message = pre @ keyword @ post) \<longleftrightarrow>
        (\<exists>pre mid post. message = pre @ mid @ post \<and> list_all2 case_variant mid keyword)"
    if "keyword \<in> set [''blocked'', ''critical'', ''urgent'', ''help'', ''error'', ''broken'']"
    for keyword
  proof -
    from that urgentKeywords_small have "set keyword \<inter> set capital_letters = {}"
      unfolding urgentKeywords_def by blast
    from ascii_lower_contains_iff [OF this, of message] assms show ?thesis by simp
  qed
  then show ?thesis by blast
qed

text \<open>
  Claim C3. When the message has been built and the immediate attempt raises, whatever
  the error and wherever in the attempt, \<open>handleIncomingMessage\<close> returns the
  acknowledgment and not an error, and the queue it leaves is the queue it found with
  exactly one new entry, for that message: the log gets one enqueue, and after it the
  acknowledgment to the user's socket, if there is one. The entry's priority is 1 if the
  content, put in lower case by \<open>toLowerCase\<close>, contains one of blocked, critical, urgent,
  help, error, broken; else 2 if the sender's recorded status is blocked; else 3. On a
  content of ASCII characters, where \<open>toLowerCase\<close> maps the capital letters A to Z to the
  small ones and nothing else, the priority is 1 exactly when some part of the content
  is one of the keywords up to the case of its letters.
\<close>

theorem fallback_enqueues_once_with_heuristic_priority:
  "build_message env userId message incoming w = (Inr um, w0) \<Longrightarrow>
   process_immediately env um w0 = (Inl err, w1) \<Longrightarrow>
     handleIncomingMessage env userId message incoming w =
       (Inr (JStr acknowledgment_text),
        ((fst w1)\<lparr>messageQueue :=
            enqueue (messageQueue (fst w)) um (calculateMessagePriority env um)\<rparr>,
         snd w1 @ [Enqueued um (calculateMessagePriority env um)]
         @ (if userId \<in> set (activeConnections (fst w))
            then [Emitted userId (Acknowledgment (um_id um))] else []))) \<and>
     entries (enqueue (messageQueue (fst w)) um (calculateMessagePriority env um)) =
       entries (messageQueue (fst w)) @
         [\<lparr>q_item = um, q_priority = calculateMessagePriority env um,
           q_sequence = nextSequence (messageQueue (fst w))\<rparr>] \<and>
     um_content um = message \<and>
     calculateMessagePriority env um =
       (if \<exists>keyword\<in>set [''blocked'', ''critical'', ''urgent'', ''help'', ''error'', ''broken''].
             \<exists>pre post. to_lower_case env message = pre @ keyword @ post
        then 1
        else if user_status_read env = Inr (Some ''blocked'') then 2 else 3) \<and>
     ((\<forall>s. is_ascii s \<longrightarrow> to_lower_case env s = ascii_lower s) \<and> is_ascii message \<longrightarrow>
        calculateMessagePriority env um =
          (if \<exists>keyword\<in>set [''blocked'', ''critical'', ''urgent'', ''help'', ''error'', ''broken''].
                \<exists>pre mid post. message = pre @ mid @ post \<and> list_all2 case_variant mid keyword
           then 1
           else if user_status_read env = Inr (Some ''blocked'') then 2 else 3))"
proof -
  assume build: "build_message env userId message incoming w = (Inr um, w0)"
    and throws: "process_immediately env um w0 = (Inl err, w1)"
  note um = build_message_Inr [OF build]
  from process_immediately_frame [OF throws] um(1)
  have frame: "messageQueue (fst w1) = messageQueue (fst w)"
    "activeConnections (fst w1) = activeConnections (fst w)" by simp_all
  have "handleIncomingMessage env userId message incoming w = fall_back_to_queue env um w1"
    using build throws um(1) by (simp add: handleIncomingMessage_def and_then_def try_catch_def)
  then have 1: "handleIncomingMessage env userId message incoming w =
       (Inr (JStr acknowledgment_text),
        ((fst w1)\<lparr>messageQueue :=
            enqueue (messageQueue (fst w)) um (calculateMessagePriority env um)\<rparr>,
         snd w1 @ [Enqueued um (calculateMessagePriority env um)]
         @ (if userId \<in> set (activeConnections (fst w))
            then [Emitted userId (Acknowledgment (um_id um))] else [])))"
    by (simp add: fall_back_to_queue_eq frame um(3))
  have 2: "entries (enqueue (messageQueue (fst w)) um (calculateMessagePriority env um)) =
       entries (messageQueue (fst w)) @
         [\<lparr>q_item = um, q_priority = calculateMessagePriority env um,
           q_sequence = nextSequence (messageQueue (fst w))\<rparr>]"
    by (simp add: enqueue_def)
  have 3: "calculateMessagePriority env um =
       (if \<exists>keyword\<in>set [''blocked'', ''critical'', ''urgent'', ''help'', ''error'', ''broken''].
             \<exists>pre post. to_lower_case env message = pre @ keyword @ post
        then 1
        else if user_status_read env = Inr (Some ''blocked'') then 2 else 3)"
    unfolding calculateMessagePriority_eq um(2) um(4) ..
  have 4: "calculateMessagePriority env um =
          (if \<exists>keyword\<in>set [''blocked'', ''critical'', ''urgent'', ''help'', ''error'', ''broken''].
                \<exists>pre mid post. message = pre @ mid @ post \<and> list_all2 case_variant mid keyword
           then 1
           else if user_status_read env = Inr (Some ''blocked'') then 2 else 3)"
    if "(\<forall>s. is_ascii s \<longrightarrow> to_lower_case env s = ascii_lower s) \<and> is_ascii message"
  proof -
    from that have "to_lower_case env message = ascii_lower message" by blast
    from ascii_keyword_iff [OF this] show ?thesis unfolding 3 by simp
  qed
  from 1 2 3 4 um(2) show ?thesis by blast
qed

lemma failing_build:
  "build_message failing_worker_env ''u1'' content [] (sample_hub, []) =
     (Inr (sample_message\<lparr>um_content := content\<rparr>), (sample_hub, []))"
  by (simp add: build_message_def getUserName_def getUserCurrentTasks_def getUserStatus_def
      and_then_def from_result_def succeed_def failing_worker_env_def sample_env_def
      sample_message_def)

lemma failing_throws:
  "process_immediately failing_worker_env m (sample_hub, []) =
     (Inl (Failure ''request timed out''), (sample_hub, []))"
  by (simp add: process_immediately_def on_processor_def on_part_def processUserMessage_def
      analyzeAndClassifyMessage_def getAvailableProcessor_def isAvailable_def queueSize_def
      try_finally_def and_then_def from_result_def on_self_def
      failing_worker_env_def sample_env_def sample_hub_def)

lemma kelvin_build:
  "build_message kelvin_env ''u1'' content [] (sample_hub, []) =
     (Inr (sample_message\<lparr>um_content := content\<rparr>), (sample_hub, []))"
  by (simp add: build_message_def getUserName_def getUserCurrentTasks_def getUserStatus_def
      and_then_def from_result_def succeed_def kelvin_env_def failing_worker_env_def
      sample_env_def sample_message_def)

lemma kelvin_throws:
  "process_immediately kelvin_env m (sample_hub, []) =
     (Inl (Failure ''request timed out''), (sample_hub, []))"
  by (simp add: process_immediately_def on_processor_def on_part_def processUserMessage_def
      analyzeAndClassifyMessage_def getAvailableProcessor_def isAvailable_def queueSize_def
      try_finally_def and_then_def from_result_def on_self_def
      kelvin_env_def failing_worker_env_def sample_env_def sample_hub_def)

text \<open>
  The theorem with a model client that times out and a user without a recorded status,
  on three contents: "the build is broken, please help", queued at priority 1;
  "The deploy is BLOCKED", in capitals, at priority 1; "please review my branch", which
  has no keyword, at priority 3. And with a \<open>toLowerCase\<close> that knows the Kelvin sign, on
  the content "bro", Kelvin sign, "en build": priority 1.
\<close>

theorem fallback_enqueues_once_with_heuristic_priority_witness:
  "handleIncomingMessage failing_worker_env ''u1'' ''the build is broken, please help'' []
     (sample_hub, []) =
     (Inr (JStr acknowledgment_text),
      (sample_hub\<lparr>messageQueue :=
         \<lparr>entries = [\<lparr>q_item = sample_message, q_priority = 1, q_sequence = 0\<rparr>],
          nextSequence = 1\<rparr>\<rparr>,
       [Enqueued sample_message 1, Emitted ''u1'' (Acknowledgment ''msg_1'')])) \<and>
   calculateMessagePriority failing_worker_env
     (sample_message\<lparr>um_content := ''The deploy is BLOCKED''\<rparr>) = 1 \<and>
   calculateMessagePriority failing_worker_env
     (sample_message\<lparr>um_content := ''please review my branch''\<rparr>) = 3 \<and>
   calculateMessagePriority kelvin_env
     (sample_message\<lparr>um_content := ''bro'' @ kelvin_sign @ ''en build''\<rparr>) = 1"
proof -
  have same: "sample_message\<lparr>um_content := ''the build is broken, please help''\<rparr> = sample_message"
    by (simp add: sample_message_def)
  have lower: "\<forall>s. is_ascii s \<longrightarrow> to_lower_case failing_worker_env s = ascii_lower s"
    by (simp add: failing_worker_env_def sample_env_def)
  have status: "user_status_read failing_worker_env \<noteq> Inr (Some ''blocked'')"
    "user_status_read kelvin_env \<noteq> Inr (Some ''blocked'')"
    by (simp_all add: kelvin_env_def failing_worker_env_def sample_env_def)
  note first = fallback_enqueues_once_with_heuristic_priority
    [OF failing_build failing_throws, of "''the build is broken, please help''"]
  have variant: "list_all2 case_variant ''broken'' ''broken''"
    by (simp add: case_variant_def)
  have "''the build is broken, please help'' = ''the build is '' @ ''broken'' @ '', please help''"
    by simp
  with variant have "\<exists>keyword\<in>set [''blocked'', ''critical'', ''urgent'', ''help'', ''error'', ''broken''].
      \<exists>pre mid post. ''the build is broken, please help'' = pre @ mid @ post \<and>
        list_all2 case_variant mid keyword"
    by (metis list.set_intros)
  moreover have "is_ascii ''the build is broken, please help''" by (simp add: is_ascii_def)
  ultimately have p1: "calculateMessagePriority failing_worker_env sample_message = 1"
    using first lower unfolding same by simp
  have i: "um_id sample_message = ''msg_1''" by (simp add: sample_message_def)
  from first have a: "handleIncomingMessage failing_worker_env ''u1''
       ''the build is broken, please help'' [] (sample_hub, []) =
     (Inr (JStr acknowledgment_text),
      (sample_hub\<lparr>messageQueue :=
         \<lparr>entries = [\<lparr>q_item = sample_message, q_priority = 1, q_sequence = 0\<rparr>],
          nextSequence = 1\<rparr>\<rparr>,
       [Enqueued sample_message 1, Emitted ''u1'' (Acknowledgment ''msg_1'')]))"
    unfolding same p1 i by (simp add: enqueue_def emptyQueue_def sample_hub_def)
  note second = fallback_enqueues_once_with_heuristic_priority
    [OF failing_build failing_throws, of "''The deploy is BLOCKED''"]
  have "list_all2 case_variant ''BLOCKED'' ''blocked''"
    by (simp add: case_variant_def capital_letters_def small_letters_def)
  moreover have "''The deploy is BLOCKED'' = ''The deploy is '' @ ''BLOCKED'' @ []" by simp
  ultimately have "\<exists>keyword\<in>set [''blocked'', ''critical'', ''urgent'', ''help'', ''error'', ''broken''].
      \<exists>pre mid post. ''The deploy is BLOCKED'' = pre @ mid @ post \<and>
        list_all2 case_variant mid keyword"
    by (metis list.set_intros(1))
  moreover have "is_ascii ''The deploy is BLOCKED''" by (simp add: is_ascii_def)
  ultimately have b: "calculateMessagePriority failing_worker_env
     (sample_message\<lparr>um_content := ''The deploy is BLOCKED''\<rparr>) = 1"
    using second lower by simp
  note third = fallback_enqueues_once_with_heuristic_priority
    [OF failing_build failing_throws, of "''please review my branch''"]
  have "to_lower_case failing_worker_env ''please review my branch'' = ''please review my branch''"
    by (simp add: failing_worker_env_def sample_env_def ascii_lower_def lower_char_def
        capital_letters_def small_letters_def)
  moreover have "\<not> includes_str ''please review my branch'' keyword"
    if "keyword \<in> set [''blocked'', ''critical'', ''urgent'', ''help'', ''error'', ''broken'']"
    for keyword
    using that by (auto simp: starts_with_def)
  ultimately have "\<not> (\<exists>keyword\<in>set [''blocked'', ''critical'', ''urgent'', ''help'', ''error'', ''broken''].
      \<exists>pre post. to_lower_case failing_worker_env ''please review my branch'' =
        pre @ keyword @ post)"
    unfolding includes_str_iff by metis
  with third status(1) have c: "calculateMessagePriority failing_worker_env
     (sample_message\<lparr>um_content := ''please review my branch''\<rparr>) = 3"
    by simp
  note fourth = fallback_enqueues_once_with_heuristic_priority
    [OF kelvin_build kelvin_throws, of "''bro'' @ kelvin_sign @ ''en build''"]
  have "to_lower_case kelvin_env (''bro'' @ kelvin_sign @ ''en build'') = ''broken build''"
    by (simp add: kelvin_env_def kelvin_sign_def lower_char_def capital_letters_def
        small_letters_def)
  then have "to_lower_case kelvin_env (''bro'' @ kelvin_sign @ ''en build'') =
     [] @ ''broken'' @ '' build''" by simp
  then have "\<exists>keyword\<in>set [''blocked'', ''critical'', ''urgent'', ''help'', ''error'', ''broken''].
      \<exists>pre post. to_lower_case kelvin_env (''bro'' @ kelvin_sign @ ''en build'') =
        pre @ keyword @ post"
    by (metis list.set_intros)
  with fourth have d: "calculateMessagePriority kelvin_env
     (sample_message\<lparr>um_content := ''bro'' @ kelvin_sign @ ''en build''\<rparr>) = 1"
    by simp
  from a b c d show ?thesis by blast
qed








end
